theory Spec2Isabelle
  imports Main "HOL-Library.Char_ord" "HOL-Library.List_Lexorder"
begin

section \<open>Errors\<close>

text \<open>
  The error constructors of the package (\<^verbatim>\<open>PTOMissingMetadataError\<close>,
  \<^verbatim>\<open>PTONotFoundError\<close>, \<^verbatim>\<open>PTOExistsError\<close>, \<^verbatim>\<open>PTOWrapError\<close>,
  \<^verbatim>\<open>PTOErrorf(...).StatusIs(code)\<close>) are called by the code but declared in a file
  that is not part of the sources; each is a constructor here, carrying the arguments
  of the call. \<open>GoError\<close> stands for an error value of the Go library
  (\<^verbatim>\<open>errors.New\<close>, \<^verbatim>\<open>strconv\<close>, \<^verbatim>\<open>os\<close>, the database driver).
\<close>

datatype pto_error =
    PTOMissingMetadataError string
  | PTONotFoundError string string
  | PTOExistsError string string
  | PTOWrapError string
  | PTOErrorStatus string nat
  | GoError string

section \<open>Raw metadata records\<close>

text \<open>A \<^verbatim>\<open>time.Time\<close> is an instant: nanoseconds since the Unix epoch.\<close>

type_synonym time = int

text \<open>
  \<^verbatim>\<open>type RawMetadata struct\<close>. A Go string that is empty, and a nil
  \<^verbatim>\<open>*time.Time\<close>, mean that the field is absent. \<open>Parent\<close> is the pointer to the
  campaign's record (nil for a campaign).
\<close>

datatype RawMetadata = RawMetadata
  (Parent: "RawMetadata option")
  (filetype: string)
  (owner: string)
  (timeStart: "time option")
  (timeEnd: "time option")
  (Metadata: "string \<rightharpoonup> string")
  (datalink: string)
  (datasize: int)
  (creatime: "time option")
  (modtime: "time option")

text \<open>Reading a Go \<^verbatim>\<open>map[string]string\<close>: the zero value when the key is missing.\<close>

definition map_get :: "(string \<rightharpoonup> string) \<Rightarrow> string \<Rightarrow> string" where
  "map_get m k = (case m k of None \<Rightarrow> [] | Some v \<Rightarrow> v)"

text \<open>The assignment \<^verbatim>\<open>md.Parent = parent\<close>.\<close>

definition set_Parent :: "RawMetadata option \<Rightarrow> RawMetadata \<Rightarrow> RawMetadata" where
  "set_Parent p md =
     RawMetadata p (filetype md) (owner md) (timeStart md) (timeEnd md) (Metadata md)
       (datalink md) (datasize md) (creatime md) (modtime md)"

definition Filetype :: "RawMetadata \<Rightarrow> bool \<Rightarrow> string" where
  "Filetype md inherit =
     (if filetype md = [] \<and> inherit \<and> Parent md \<noteq> None
      then filetype (the (Parent md)) else filetype md)"

definition Owner :: "RawMetadata \<Rightarrow> bool \<Rightarrow> string" where
  "Owner md inherit =
     (if owner md = [] \<and> inherit \<and> Parent md \<noteq> None
      then owner (the (Parent md)) else owner md)"

definition TimeStart :: "RawMetadata \<Rightarrow> bool \<Rightarrow> time option" where
  "TimeStart md inherit =
     (if timeStart md = None \<and> inherit \<and> Parent md \<noteq> None
      then timeStart (the (Parent md)) else timeStart md)"

definition TimeEnd :: "RawMetadata \<Rightarrow> bool \<Rightarrow> time option" where
  "TimeEnd md inherit =
     (if timeEnd md = None \<and> inherit \<and> Parent md \<noteq> None
      then timeEnd (the (Parent md)) else timeEnd md)"

definition Get :: "RawMetadata \<Rightarrow> string \<Rightarrow> bool \<Rightarrow> string" where
  "Get md k inherit =
     (let out = map_get (Metadata md) k in
      if out = [] \<and> inherit \<and> Parent md \<noteq> None
      then map_get (Metadata (the (Parent md))) k else out)"

text \<open>\<^verbatim>\<open>func (md *RawMetadata) validate(isCampaign bool) error\<close>; \<open>None\<close> is nil.\<close>

definition validate :: "RawMetadata \<Rightarrow> bool \<Rightarrow> pto_error option" where
  "validate md isCampaign =
     (if Owner md True = [] then Some (PTOMissingMetadataError ''_owner'')
      else if isCampaign then None
      else if Filetype md True = [] then Some (PTOMissingMetadataError ''_file_type'')
      else if TimeStart md True = None then Some (PTOMissingMetadataError ''_time_start'')
      else if TimeEnd md True = None then Some (PTOMissingMetadataError ''_time_end'')
      else None)"

section \<open>The path cache\<close>

text \<open>
  A Go \<^verbatim>\<open>int\<close> is a 64-bit signed integer; \<open>go_int\<close> is the value an
  arithmetic result wraps to.
\<close>

definition go_int :: "int \<Rightarrow> int" where
  "go_int x = (x + 2 ^ 63) mod 2 ^ 64 - 2 ^ 63"

text \<open>\<^verbatim>\<open>type PathCache map[string]int\<close>; reading a missing key gives 0.\<close>

type_synonym PathCache = "string \<rightharpoonup> int"

definition cache_lookup :: "PathCache \<Rightarrow> string \<Rightarrow> int" where
  "cache_lookup cache ps = (case cache ps of None \<Rightarrow> 0 | Some i \<Rightarrow> i)"

text \<open>
  The database, as far as \<^verbatim>\<open>CacheNewPaths\<close> touches it: the sequence
  \<^verbatim>\<open>paths_id_seq\<close> and the rows of the table \<^verbatim>\<open>paths\<close>. The sequence is held as
  the last value it handed out (0 for a new sequence, whose first value is 1).
  PostgreSQL's \<^verbatim>\<open>nextval\<close> advances it by one and returns the new value;
  \<^verbatim>\<open>setval(seq, v)\<close> makes \<open>v\<close> the last value, so that the next
  \<^verbatim>\<open>nextval\<close> returns \<open>v + 1\<close>. Both refuse a value outside \<open>1 .. 2^63 - 1\<close>, the
  range of the sequence of a serial column.
\<close>

record DB =
  paths_id_seq :: int
  paths :: "(int \<times> string) list"

definition nextval :: "DB \<Rightarrow> (int \<times> DB) option" where
  "nextval db =
     (if paths_id_seq db \<ge> 2 ^ 63 - 1 then None
      else Some (paths_id_seq db + 1, db\<lparr>paths_id_seq := paths_id_seq db + 1\<rparr>))"

definition setval :: "int \<Rightarrow> DB \<Rightarrow> DB option" where
  "setval v db = (if v < 1 \<or> v > 2 ^ 63 - 1 then None else Some (db\<lparr>paths_id_seq := v\<rparr>))"

text \<open>
  What can fail outside the program during one call: each database call, the
  creation of the pipe, and the writes of the CSV writer.
\<close>

record faults =
  QueryOne_fails :: bool
  Exec_fails :: bool
  Pipe_fails :: bool
  CopyFrom_fails :: bool
  Write_fails :: bool

definition no_faults :: faults where
  "no_faults = \<lparr>QueryOne_fails = False, Exec_fails = False, Pipe_fails = False,
     CopyFrom_fails = False, Write_fails = False\<rparr>"

text \<open>
  \<^verbatim>\<open>func (cache PathCache) CacheNewPaths(db orm.DB, pathSet map[string]struct{}) error\<close>.
  The candidate set is the list of its keys in the order in which \<^verbatim>\<open>range\<close> visits
  them. The first loop deletes the strings the cache knows with a positive id. The
  goroutine's loop and the copy into the table run one after the other here: the loop
  stores each string in the cache under the next id and writes one CSV row for it.
  The result holds the returned error and the database, the cache and the candidate
  set as the call leaves them.
\<close>

definition prefilter :: "PathCache \<Rightarrow> string list \<Rightarrow> string list" where
  "prefilter cache pathSet = filter (\<lambda>ps. \<not> cache_lookup cache ps > 0) pathSet"

fun stream_paths ::
  "string list \<Rightarrow> int \<Rightarrow> PathCache \<Rightarrow> (int \<times> string) list \<Rightarrow> PathCache \<times> (int \<times> string) list"
where
  "stream_paths [] pidseq cache out = (cache, out)"
| "stream_paths (pathstring # rest) pidseq cache out =
     stream_paths rest (go_int (pidseq + 1)) (cache(pathstring \<mapsto> pidseq))
       (out @ [(pidseq, pathstring)])"

record cnp_result =
  cnp_err :: "pto_error option"
  cnp_db :: DB
  cnp_cache :: PathCache
  cnp_pathSet :: "string list"

definition CacheNewPaths :: "faults \<Rightarrow> DB \<Rightarrow> PathCache \<Rightarrow> string list \<Rightarrow> cnp_result" where
  "CacheNewPaths flt db cache pathSet0 =
     (let pathSet = prefilter cache pathSet0 in
      case (if QueryOne_fails flt then None else nextval db) of
        None \<Rightarrow> \<lparr>cnp_err = Some (GoError ''QueryOne''), cnp_db = db, cnp_cache = cache,
                  cnp_pathSet = pathSet\<rparr>
      | Some (pidseq, db1) \<Rightarrow>
          (case (if Exec_fails flt then None
                 else setval (go_int (pidseq + int (length pathSet))) db1) of
            None \<Rightarrow> \<lparr>cnp_err = Some (GoError ''Exec''), cnp_db = db1, cnp_cache = cache,
                      cnp_pathSet = pathSet\<rparr>
          | Some db2 \<Rightarrow>
              if Pipe_fails flt
              then \<lparr>cnp_err = Some (GoError ''Pipe''), cnp_db = db2, cnp_cache = cache,
                     cnp_pathSet = pathSet\<rparr>
              else
                (let (cache', rows) = stream_paths pathSet pidseq cache [] in
                 if CopyFrom_fails flt
                 then \<lparr>cnp_err = Some (GoError ''CopyFrom''), cnp_db = db2, cnp_cache = cache',
                        cnp_pathSet = pathSet\<rparr>
                 else \<lparr>cnp_err = (if Write_fails flt then Some (GoError ''Write'') else None),
                        cnp_db = db2\<lparr>paths := paths db2 @ rows\<rparr>, cnp_cache = cache',
                        cnp_pathSet = pathSet\<rparr>)))"

section \<open>Path names\<close>

text \<open>
  The functions of Go's \<^verbatim>\<open>path/filepath\<close> that the code calls, for Unix path names
  (the separator is the slash), after the package's documentation.
  \<open>split_sep\<close> is \<^verbatim>\<open>strings.Split(s, "/")\<close> and \<open>join_sep\<close> is
  \<^verbatim>\<open>strings.Join(elems, "/")\<close>.
\<close>

fun split_sep :: "string \<Rightarrow> string list" where
  "split_sep [] = [[]]"
| "split_sep (c # cs) =
     (if c = CHR ''/'' then [] # split_sep cs
      else (case split_sep cs of [] \<Rightarrow> [[c]] | x # xs \<Rightarrow> (c # x) # xs))"

fun join_sep :: "string list \<Rightarrow> string" where
  "join_sep [] = []"
| "join_sep [x] = x"
| "join_sep (x # y # ys) = x @ CHR ''/'' # join_sep (y # ys)"

text \<open>
  \<^verbatim>\<open>filepath.Clean\<close>: empty and \<^verbatim>\<open>.\<close> elements are dropped, an inner
  \<^verbatim>\<open>..\<close> removes the element before it, a \<^verbatim>\<open>..\<close> at the start of a rooted path
  is dropped, and the empty result is \<^verbatim>\<open>.\<close>. \<open>clean_step\<close> consumes one element;
  the elements kept so far are held last first.
\<close>

definition clean_step :: "bool \<Rightarrow> string list \<Rightarrow> string \<Rightarrow> string list" where
  "clean_step rooted st c =
     (if c = [] \<or> c = ''.'' then st
      else if c = ''..'' then
        (case st of
           [] \<Rightarrow> if rooted then [] else [''..'']
         | t # ts \<Rightarrow> if t = ''..'' then c # st else ts)
      else c # st)"

definition Clean :: "string \<Rightarrow> string" where
  "Clean p =
     (let rooted = (p \<noteq> [] \<and> hd p = CHR ''/'');
          st = foldl (clean_step rooted) [] (split_sep p);
          out = (if rooted then ''/'' else []) @ join_sep (rev st)
      in if out = [] then ''.'' else out)"

text \<open>
  \<^verbatim>\<open>filepath.Join\<close>: leading empty elements are ignored, the rest is joined
  with slashes and cleaned; the result is empty when every element is.
\<close>

definition Join :: "string list \<Rightarrow> string" where
  "Join elem =
     (case dropWhile (\<lambda>e. e = []) elem of
        [] \<Rightarrow> []
      | e # es \<Rightarrow> Clean (join_sep (e # es)))"

text \<open>
  \<^verbatim>\<open>filepath.Base\<close>: the last element of the path, trailing slashes removed;
  \<^verbatim>\<open>.\<close> for the empty path and \<^verbatim>\<open>/\<close> for a path of slashes only.
\<close>

definition Base :: "string \<Rightarrow> string" where
  "Base p =
     (if p = [] then ''.''
      else (let q = rev (dropWhile (\<lambda>c. c = CHR ''/'') (rev p))
            in if q = [] then ''/'' else last (split_sep q)))"

text \<open>\<^verbatim>\<open>strings.HasPrefix\<close> and \<^verbatim>\<open>strings.HasSuffix\<close>.\<close>

definition HasPrefix :: "string \<Rightarrow> string \<Rightarrow> bool" where
  "HasPrefix s pre = (take (length pre) s = pre)"

definition HasSuffix :: "string \<Rightarrow> string \<Rightarrow> bool" where
  "HasSuffix s suf = (length suf \<le> length s \<and> drop (length s - length suf) s = suf)"

text \<open>
  \<^verbatim>\<open>filepath.Match(pattern, name)\<close>, as the code uses it: the result is false
  when the pattern is malformed. In a pattern \<^verbatim>\<open>*\<close> matches any sequence of
  characters other than the slash, \<^verbatim>\<open>?\<close> one character other than the slash,
  \<^verbatim>\<open>[...]\<close> one character of a class (negated by a leading \<^verbatim>\<open>^\<close>, with ranges
  \<^verbatim>\<open>lo-hi\<close>), a backslash makes the next character literal, and any other character
  matches itself. Characters are bytes, which is what Go matches on ASCII names; on
  other names Go takes a whole UTF-8 character for \<^verbatim>\<open>?\<close> and in a class.
  \<open>getEsc\<close> reads one character of a class,
  \<open>match_ranges\<close> the ranges up to the closing bracket, and \<open>match_class\<close> the class
  after its opening bracket; each returns the rest of the pattern.
\<close>

fun getEsc :: "string \<Rightarrow> (char \<times> string) option" where
  "getEsc [] = None"
| "getEsc (c # chunk) =
     (if c = CHR ''-'' \<or> c = CHR '']'' then None
      else if c = CHR 0x5C then
        (case chunk of
           [] \<Rightarrow> None
         | r # nchunk \<Rightarrow> if nchunk = [] then None else Some (r, nchunk))
      else if chunk = [] then None else Some (c, chunk))"

lemma getEsc_shorter: "getEsc chunk = Some (r, nchunk) \<Longrightarrow> length nchunk < length chunk"
  by (cases chunk) (auto split: if_splits list.splits)

function match_ranges :: "char \<Rightarrow> string \<Rightarrow> nat \<Rightarrow> bool \<Rightarrow> (bool \<times> string) option" where
  "match_ranges r chunk nrange matched =
     (if chunk \<noteq> [] \<and> hd chunk = CHR '']'' \<and> nrange > 0 then Some (matched, tl chunk)
      else (case getEsc chunk of
              None \<Rightarrow> None
            | Some (lo, chunk1) \<Rightarrow>
                if hd chunk1 = CHR ''-'' then
                  (case getEsc (tl chunk1) of
                     None \<Rightarrow> None
                   | Some (hi, chunk2) \<Rightarrow>
                       match_ranges r chunk2 (nrange + 1)
                         (matched \<or> ((of_char lo :: nat) \<le> of_char r \<and>
                            (of_char r :: nat) \<le> of_char hi)))
                else match_ranges r chunk1 (nrange + 1) (matched \<or> lo = r)))"
  by pat_completeness auto
termination
proof (relation "measure (\<lambda>(r, chunk, nrange, matched). length chunk)", goal_cases)
  case 1
  then show ?case by simp
next
  case (2 r chunk nrange matched x2 lo chunk1 x2a hi chunk2)
  then have "length chunk1 < length chunk" "length chunk2 < length (tl chunk1)"
    by (auto dest: getEsc_shorter)
  then show ?case by simp
next
  case (3 r chunk nrange matched x2 lo chunk1)
  then show ?case by (auto dest: getEsc_shorter)
qed

declare match_ranges.simps [simp del]

lemma match_ranges_shorter:
  "match_ranges r chunk nrange matched = Some (m, rest) \<Longrightarrow> length rest < length chunk"
proof (induction r chunk nrange matched rule: match_ranges.induct)
  case (1 r chunk nrange matched)
  show ?case
  proof (cases "chunk \<noteq> [] \<and> hd chunk = CHR '']'' \<and> nrange > 0")
    case True
    then show ?thesis
      using "1.prems" by (subst (asm) match_ranges.simps) (cases chunk, auto)
  next
    case False
    then obtain lo chunk1 where e1: "getEsc chunk = Some (lo, chunk1)"
      using "1.prems" by (subst (asm) match_ranges.simps) (auto split: option.splits)
    have l1: "length chunk1 < length chunk" using e1 by (rule getEsc_shorter)
    show ?thesis
    proof (cases "hd chunk1 = CHR ''-''")
      case True
      then obtain hi chunk2 where e2: "getEsc (tl chunk1) = Some (hi, chunk2)"
        using "1.prems" False e1
        by (subst (asm) match_ranges.simps) (auto split: option.splits)
      have l2: "length chunk2 < length (tl chunk1)" using e2 by (rule getEsc_shorter)
      have "match_ranges r chunk2 (nrange + 1)
          (matched \<or> ((of_char lo :: nat) \<le> of_char r \<and> (of_char r :: nat) \<le> of_char hi))
          = Some (m, rest)"
        using "1.prems" False e1 e2 True by (subst (asm) match_ranges.simps) simp
      then have "length rest < length chunk2"
        using "1.IH"(1) False e1 e2 True by simp
      then show ?thesis using l1 l2 by simp
    next
      case nd: False
      have "match_ranges r chunk1 (nrange + 1) (matched \<or> lo = r) = Some (m, rest)"
        using "1.prems" False e1 nd by (subst (asm) match_ranges.simps) simp
      then have "length rest < length chunk1"
        using "1.IH"(2) False e1 nd by simp
      then show ?thesis using l1 by simp
    qed
  qed
qed

definition match_class :: "char \<Rightarrow> string \<Rightarrow> (bool \<times> string) option" where
  "match_class r chunk =
     (case chunk of
        [] \<Rightarrow> None
      | c # cs \<Rightarrow>
          (let negated = (c = CHR ''^'');
               chunk1 = (if negated then cs else chunk)
           in case match_ranges r chunk1 0 False of
                None \<Rightarrow> None
              | Some (m, rest) \<Rightarrow> Some (m \<noteq> negated, rest)))"

lemma match_class_shorter:
  "match_class r chunk = Some (m, rest) \<Longrightarrow> length rest < length chunk"
  by (cases chunk)
    (auto simp: match_class_def Let_def split: option.splits if_splits
      dest!: match_ranges_shorter)

function Match :: "string \<Rightarrow> string \<Rightarrow> bool" where
  "Match [] name = (name = [])"
| "Match (c # pattern) [] = (c = CHR ''*'' \<and> Match pattern [])"
| "Match (c # pattern) (d # name) =
     (if c = CHR ''*'' then
        Match pattern (d # name) \<or> (d \<noteq> CHR ''/'' \<and> Match (c # pattern) name)
      else if c = CHR ''?'' then d \<noteq> CHR ''/'' \<and> Match pattern name
      else if c = CHR ''['' then
        (case match_class d pattern of
           None \<Rightarrow> False
         | Some (m, rest) \<Rightarrow> m \<and> Match rest name)
      else if c = CHR 0x5C then
        (case pattern of [] \<Rightarrow> False | e # rest \<Rightarrow> e = d \<and> Match rest name)
      else c = d \<and> Match pattern name)"
  by pat_completeness auto
termination
  by (relation "measure (\<lambda>(pattern, name). length pattern + length name)")
    (auto dest: match_class_shorter)

section \<open>Decoded JSON values and their conversions\<close>

text \<open>
  What \<^verbatim>\<open>json.Unmarshal\<close> stores in an \<^verbatim>\<open>interface{}\<close>: nil, a bool, a
  \<^verbatim>\<open>float64\<close>, a string, a \<^verbatim>\<open>[]interface{}\<close> or a
  \<^verbatim>\<open>map[string]interface{}\<close>. \<open>JNumber n\<close> is the \<^verbatim>\<open>float64\<close> of the integer
  \<open>n\<close>, which is exact for \<open>\<bar>n\<bar> \<le> 2^53\<close>; numbers with a fraction are not part of
  the model. An object is the list of its entries, with distinct keys, in the order
  in which \<^verbatim>\<open>range\<close> visits them. The same values stand for the JSON text on the
  wire: \<^verbatim>\<open>json.Marshal\<close> writes a Go \<^verbatim>\<open>int\<close> as the number that
  \<^verbatim>\<open>json.Unmarshal\<close> reads back as a \<^verbatim>\<open>float64\<close>.
\<close>

datatype jvalue =
    JNull
  | JBool bool
  | JNumber int
  | JString string
  | JArray "jvalue list"
  | JObject "(string \<times> jvalue) list"

text \<open>
  The decimal digits of a number that is not negative, and
  \<^verbatim>\<open>strconv.Itoa\<close>.
\<close>

definition digit_char :: "int \<Rightarrow> char" where
  "digit_char d = ''0123456789'' ! nat d"

function digits :: "int \<Rightarrow> string" where
  "digits n = (if n < 10 then [digit_char n] else digits (n div 10) @ [digit_char (n mod 10)])"
  by pat_completeness auto
termination
  by (relation "measure nat") auto

declare digits.simps [simp del]

definition Itoa :: "int \<Rightarrow> string" where
  "Itoa n = (if n < 0 then CHR ''-'' # digits (- n) else digits n)"

text \<open>
  \<^verbatim>\<open>fmt.Sprintf("%v", x)\<close> for a \<^verbatim>\<open>float64\<close> \<open>x\<close> with an integer value: the
  format \<^verbatim>\<open>%g\<close> with the shortest precision. With fewer than seven digits the
  number is written in full; from \<open>10^6\<close> on it is written with an exponent, as in
  \<^verbatim>\<open>1e+06\<close> and \<^verbatim>\<open>1.2345678e+07\<close>: the first digit, the remaining digits without
  trailing zeros after a point, and the exponent with at least two digits. The
  digits are those of the integer, as they are for a \<^verbatim>\<open>float64\<close> that holds the
  integer exactly (up to \<open>2^53\<close> in absolute value).
\<close>

definition strip_zeros :: "string \<Rightarrow> string" where
  "strip_zeros ds = rev (dropWhile (\<lambda>c. c = CHR ''0'') (rev ds))"

definition fmt_exponent :: "nat \<Rightarrow> string" where
  "fmt_exponent e = ''e+'' @ (if e < 10 then CHR ''0'' # digits (int e) else digits (int e))"

definition fmt_float :: "int \<Rightarrow> string" where
  "fmt_float n =
     (let ds = digits \<bar>n\<bar>;
          sign = (if n < 0 then ''-'' else []);
          e = length ds - 1
      in if e < 6 then sign @ ds
         else (let frac = strip_zeros (tl ds)
               in sign @ hd ds # (if frac = [] then [] else CHR ''.'' # frac) @ fmt_exponent e))"

text \<open>
  \<^verbatim>\<open>fmt.Sprintf("%v", v)\<close> on a decoded value: \<^verbatim>\<open><nil>\<close>, \<^verbatim>\<open>true\<close>, the
  number as above, the string itself, \<^verbatim>\<open>[a b c]\<close> for a slice and
  \<^verbatim>\<open>map[k:v k:v]\<close>, sorted by key, for a map.
\<close>

fun join_space :: "string list \<Rightarrow> string" where
  "join_space [] = []"
| "join_space [x] = x"
| "join_space (x # y # ys) = x @ CHR '' '' # join_space (y # ys)"

fun Sprint :: "jvalue \<Rightarrow> string" where
  "Sprint JNull = ''<nil>''"
| "Sprint (JBool b) = (if b then ''true'' else ''false'')"
| "Sprint (JNumber n) = fmt_float n"
| "Sprint (JString s) = s"
| "Sprint (JArray vs) = ''['' @ join_space (map Sprint vs) @ '']''"
| "Sprint (JObject kvs) =
     ''map['' @ join_space (map snd (sort_key fst
        (map (\<lambda>kv. (fst kv, fst kv @ CHR '':'' # Sprint (snd kv))) kvs))) @ '']''"

text \<open>\<^verbatim>\<open>func AsString(v interface{}) string\<close>.\<close>

definition AsString :: "jvalue \<Rightarrow> string" where
  "AsString v = (case v of JString cv \<Rightarrow> cv | _ \<Rightarrow> Sprint v)"

text \<open>
  \<^verbatim>\<open>func AsStringArray(v interface{}) ([]string, bool)\<close>; \<open>None\<close> is the result
  \<^verbatim>\<open>(nil, false)\<close>. A decoded value is never a \<^verbatim>\<open>[]string\<close>.
\<close>

definition AsStringArray :: "jvalue \<Rightarrow> string list option" where
  "AsStringArray v =
     (case v of
        JString cv \<Rightarrow> Some [cv]
      | JArray cv \<Rightarrow> Some (map AsString cv)
      | _ \<Rightarrow> None)"

text \<open>
  \<^verbatim>\<open>strconv.Atoi\<close>: an optional sign and decimal digits. The result is the value
  and whether an error is returned with it: 0 with a syntax error, and the nearest
  64-bit value with a range error.
\<close>

definition is_digit :: "char \<Rightarrow> bool" where
  "is_digit c = (48 \<le> (of_char c :: int) \<and> (of_char c :: int) \<le> 57)"

definition digits_value :: "string \<Rightarrow> int" where
  "digits_value ds = foldl (\<lambda>acc c. 10 * acc + (of_char c - 48)) 0 ds"

definition integer_syntax :: "string \<Rightarrow> bool" where
  "integer_syntax s =
     (let ds = (case s of [] \<Rightarrow> [] | c # cs \<Rightarrow> if c = CHR ''-'' \<or> c = CHR ''+'' then cs else s)
      in ds \<noteq> [] \<and> list_all is_digit ds)"

definition Atoi :: "string \<Rightarrow> int \<times> bool" where
  "Atoi s =
     (if \<not> integer_syntax s then (0, True)
      else (let neg = (hd s = CHR ''-'');
                ds = (if hd s = CHR ''-'' \<or> hd s = CHR ''+'' then tl s else s);
                n = digits_value ds
            in if \<not> neg \<and> n > 2 ^ 63 - 1 then (2 ^ 63 - 1, True)
               else if neg \<and> n > 2 ^ 63 then (- (2 ^ 63), True)
               else (if neg then - n else n, False)))"

text \<open>
  The functions of Go's \<^verbatim>\<open>time\<close> package that the code calls, as parameters:
  \<^verbatim>\<open>time.Parse(time.RFC3339, s)\<close> (\<open>None\<close> when it returns an error) and
  \<^verbatim>\<open>t.UTC().Format(time.RFC3339)\<close>.
\<close>

record golib =
  time_Parse :: "string \<Rightarrow> time option"
  time_Format :: "time \<Rightarrow> string"

text \<open>
  \<^verbatim>\<open>func AsTime(v interface{}) (time.Time, error)\<close> on a decoded value, which is
  never a \<^verbatim>\<open>time.Time\<close>, an \<^verbatim>\<open>int64\<close> or an \<^verbatim>\<open>int\<close>.
\<close>

definition AsTime :: "golib \<Rightarrow> jvalue \<Rightarrow> time option" where
  "AsTime lib v =
     (case v of
        JString cv \<Rightarrow> time_Parse lib cv
      | _ \<Rightarrow> time_Parse lib (AsString v))"

section \<open>Reading metadata records\<close>

text \<open>Assignments to the fields of a record.\<close>

definition set_filetype :: "string \<Rightarrow> RawMetadata \<Rightarrow> RawMetadata" where
  "set_filetype v md =
     RawMetadata (Parent md) v (owner md) (timeStart md) (timeEnd md) (Metadata md)
       (datalink md) (datasize md) (creatime md) (modtime md)"

definition set_owner :: "string \<Rightarrow> RawMetadata \<Rightarrow> RawMetadata" where
  "set_owner v md =
     RawMetadata (Parent md) (filetype md) v (timeStart md) (timeEnd md) (Metadata md)
       (datalink md) (datasize md) (creatime md) (modtime md)"

definition set_timeStart :: "time option \<Rightarrow> RawMetadata \<Rightarrow> RawMetadata" where
  "set_timeStart v md =
     RawMetadata (Parent md) (filetype md) (owner md) v (timeEnd md) (Metadata md)
       (datalink md) (datasize md) (creatime md) (modtime md)"

definition set_timeEnd :: "time option \<Rightarrow> RawMetadata \<Rightarrow> RawMetadata" where
  "set_timeEnd v md =
     RawMetadata (Parent md) (filetype md) (owner md) (timeStart md) v (Metadata md)
       (datalink md) (datasize md) (creatime md) (modtime md)"

definition set_Metadata :: "(string \<rightharpoonup> string) \<Rightarrow> RawMetadata \<Rightarrow> RawMetadata" where
  "set_Metadata v md =
     RawMetadata (Parent md) (filetype md) (owner md) (timeStart md) (timeEnd md) v
       (datalink md) (datasize md) (creatime md) (modtime md)"

definition set_datalink :: "string \<Rightarrow> RawMetadata \<Rightarrow> RawMetadata" where
  "set_datalink v md =
     RawMetadata (Parent md) (filetype md) (owner md) (timeStart md) (timeEnd md) (Metadata md)
       v (datasize md) (creatime md) (modtime md)"

definition set_datasize :: "int \<Rightarrow> RawMetadata \<Rightarrow> RawMetadata" where
  "set_datasize v md =
     RawMetadata (Parent md) (filetype md) (owner md) (timeStart md) (timeEnd md) (Metadata md)
       (datalink md) v (creatime md) (modtime md)"

definition set_creatime :: "time option \<Rightarrow> RawMetadata \<Rightarrow> RawMetadata" where
  "set_creatime v md =
     RawMetadata (Parent md) (filetype md) (owner md) (timeStart md) (timeEnd md) (Metadata md)
       (datalink md) (datasize md) v (modtime md)"

definition set_modtime :: "time option \<Rightarrow> RawMetadata \<Rightarrow> RawMetadata" where
  "set_modtime v md =
     RawMetadata (Parent md) (filetype md) (owner md) (timeStart md) (timeEnd md) (Metadata md)
       (datalink md) (datasize md) (creatime md) v"

text \<open>The zero value \<^verbatim>\<open>var md RawMetadata\<close>.\<close>

definition zero_RawMetadata :: RawMetadata where
  "zero_RawMetadata = RawMetadata None [] [] None None Map.empty [] 0 None None"

text \<open>
  \<^verbatim>\<open>func (md *RawMetadata) UnmarshalJSON(b []byte) error\<close>. The bytes are given
  by what they decode to: \<open>None\<close> when they are not JSON. \<open>unmarshal_keys\<close> is the
  loop over the decoded object; a JSON null decodes to the nil map, over which the
  loop does not run, and any other value that is not an object is a decoding error.
\<close>

fun unmarshal_keys :: "golib \<Rightarrow> (string \<times> jvalue) list \<Rightarrow> RawMetadata \<Rightarrow> pto_error + RawMetadata"
where
  "unmarshal_keys lib [] md = Inr md"
| "unmarshal_keys lib ((k, v) # rest) md =
     (if k = ''_file_type'' then unmarshal_keys lib rest (set_filetype (AsString v) md)
      else if k = ''_owner'' then unmarshal_keys lib rest (set_owner (AsString v) md)
      else if k = ''_time_start'' then
        (case AsTime lib v of
           None \<Rightarrow> Inl (PTOWrapError ''time.Parse'')
         | Some t \<Rightarrow> unmarshal_keys lib rest (set_timeStart (Some t) md))
      else if k = ''_time_end'' then
        (case AsTime lib v of
           None \<Rightarrow> Inl (PTOWrapError ''time.Parse'')
         | Some t \<Rightarrow> unmarshal_keys lib rest (set_timeEnd (Some t) md))
      else if HasPrefix k ''__'' then unmarshal_keys lib rest md
      else unmarshal_keys lib rest (set_Metadata ((Metadata md)(k \<mapsto> AsString v)) md))"

definition UnmarshalJSON_RawMetadata ::
  "golib \<Rightarrow> jvalue option \<Rightarrow> RawMetadata \<Rightarrow> pto_error + RawMetadata" where
  "UnmarshalJSON_RawMetadata lib b md =
     (case b of
        None \<Rightarrow> Inl (PTOWrapError ''json.Unmarshal'')
      | Some JNull \<Rightarrow> Inr (set_Metadata Map.empty md)
      | Some (JObject jmap) \<Rightarrow> unmarshal_keys lib jmap (set_Metadata Map.empty md)
      | Some _ \<Rightarrow> Inl (PTOWrapError ''json.Unmarshal''))"

text \<open>
  The file system, as the campaign code sees it. \<^verbatim>\<open>os.Stat\<close> gives the size and
  the modification time of a file, reports that it does not exist, or fails
  otherwise. Opening and reading a file gives its bytes (by what they decode to) or
  fails. \<^verbatim>\<open>ioutil.ReadDir\<close> gives the names in a directory, or fails.
  \<^verbatim>\<open>os.Create\<close> succeeds or fails.
\<close>

datatype stat_result = StatOK int time | StatNotExist | StatError

datatype read_result = OpenError | ReadError | Bytes "jvalue option"

record filesystem =
  fs_stat :: "string \<Rightarrow> stat_result"
  fs_read :: "string \<Rightarrow> read_result"
  fs_readdir :: "string \<Rightarrow> string list option"
  fs_create :: "string \<Rightarrow> bool"

text \<open>
  \<^verbatim>\<open>RawMetadataFromFile\<close>, with \<^verbatim>\<open>RawMetadataFromReader\<close> inlined: open, read
  all, decode, then link the record to its parent.
\<close>

definition RawMetadataFromFile ::
  "golib \<Rightarrow> filesystem \<Rightarrow> string \<Rightarrow> RawMetadata option \<Rightarrow> pto_error + RawMetadata" where
  "RawMetadataFromFile lib fs pathname parent =
     (case fs_read fs pathname of
        OpenError \<Rightarrow> Inl (PTOWrapError ''os.Open'')
      | ReadError \<Rightarrow> Inl (PTOWrapError ''ioutil.ReadAll'')
      | Bytes b \<Rightarrow>
          (case UnmarshalJSON_RawMetadata lib b zero_RawMetadata of
             Inl e \<Rightarrow> Inl e
           | Inr md \<Rightarrow> Inr (set_Parent parent md)))"

section \<open>Campaigns\<close>

definition CampaignMetadataFilename :: string where
  "CampaignMetadataFilename = ''__pto_campaign_metadata.json''"

definition FileMetadataSuffix :: string where
  "FileMetadataSuffix = ''.pto_file_metadata.json''"

text \<open>
  The configuration is used through \<^verbatim>\<open>config.LinkTo\<close> only, which is not part of
  the sources: it is a parameter here, returning the link and the error (if any).
\<close>

record PTOConfiguration =
  RawRoot :: string
  LinkTo :: "string \<Rightarrow> string \<times> pto_error option"

text \<open>
  \<^verbatim>\<open>type Campaign struct\<close>, without the lock. The cached records are pointers:
  \<open>campaignMetadata\<close> may be nil, the map \<open>fileMetadata\<close> may be nil, and an entry of
  the map may hold a nil pointer.
\<close>

record Campaign =
  config :: PTOConfiguration
  path :: string
  stale :: bool
  campaignMetadata :: "RawMetadata option"
  fileMetadata :: "(string \<rightharpoonup> RawMetadata option) option"

text \<open>
  How a call ends: with nil, with an error, or in a run-time panic. The campaign is
  returned beside it, as the call leaves it.
\<close>

datatype outcome = Success | Failure pto_error | Panic string

text \<open>
  \<^verbatim>\<open>t.Sub(u)\<close>: the difference as a \<^verbatim>\<open>Duration\<close>, which stops at the largest
  and the smallest 64-bit value.
\<close>

definition time_Sub :: "time \<Rightarrow> time \<Rightarrow> int" where
  "time_Sub t u =
     (let d = t - u
      in if d > 2 ^ 63 - 1 then 2 ^ 63 - 1 else if d < - (2 ^ 63) then - (2 ^ 63) else d)"

text \<open>The store into the record that \<open>filename\<close> points to.\<close>

definition put_file :: "string \<Rightarrow> RawMetadata \<Rightarrow> Campaign \<Rightarrow> Campaign" where
  "put_file filename md cam =
     cam\<lparr>fileMetadata := Some ((case fileMetadata cam of None \<Rightarrow> Map.empty | Some fm \<Rightarrow> fm)
       (filename \<mapsto> Some md))\<rparr>"

text \<open>
  \<^verbatim>\<open>func (cam *Campaign) updateFileVirtualMetadata(filename string) error\<close>. The
  record is changed in place, so what was assigned before an error return stays.
\<close>

definition updateFileVirtualMetadata ::
  "filesystem \<Rightarrow> string \<Rightarrow> Campaign \<Rightarrow> outcome \<times> Campaign" where
  "updateFileVirtualMetadata fs filename cam =
     (case (case fileMetadata cam of None \<Rightarrow> None | Some fm \<Rightarrow> fm filename) of
        None \<Rightarrow> (Failure (PTONotFoundError ''file'' filename), cam)
      | Some None \<Rightarrow>
          (case fs_stat fs (Join [path cam, filename]) of
             StatError \<Rightarrow> (Failure (GoError ''os.Stat''), cam)
           | _ \<Rightarrow> (Panic ''nil pointer dereference'', cam))
      | Some (Some md) \<Rightarrow>
          (case fs_stat fs (Join [path cam, filename]) of
             StatError \<Rightarrow> (Failure (GoError ''os.Stat''), cam)
           | datafi \<Rightarrow>
               (let md1 = (case datafi of
                             StatOK sz mt \<Rightarrow> set_creatime (Some mt) (set_datasize sz md)
                           | _ \<Rightarrow> set_creatime None (set_datasize 0 md))
                in case fs_stat fs (Join [path cam, filename @ FileMetadataSuffix]) of
                     StatOK msize mmtime \<Rightarrow>
                       (let md2 = set_modtime (Some mmtime) md1;
                            md3 = (case creatime md2 of
                                     None \<Rightarrow> set_creatime (modtime md2) md2
                                   | Some c \<Rightarrow>
                                       if time_Sub c mmtime > 0
                                       then set_modtime (creatime md2) md2 else md2);
                            link = LinkTo (config cam)
                                     (''raw/'' @ Base (path cam) @ ''/'' @ filename @ ''/data'');
                            md4 = set_datalink (fst link) md3
                        in case snd link of
                             Some e \<Rightarrow> (Failure e, put_file filename md4 cam)
                           | None \<Rightarrow> (Success, put_file filename md4 cam))
                   | _ \<Rightarrow> (Failure (GoError ''os.Stat''), put_file filename md1 cam))))"

text \<open>
  \<^verbatim>\<open>func (cam *Campaign) reloadMetadata(force bool) error\<close>. \<open>load_entries\<close> is
  the loop over the directory entries. The assignment to \<^verbatim>\<open>cam.fileMetadata[linkname]\<close>
  stores the pointer that \<^verbatim>\<open>RawMetadataFromFile\<close> returns, nil with an error, before
  the error is looked at, and panics when the map is nil. The error of
  \<^verbatim>\<open>ioutil.ReadDir\<close> is not looked at: the loop then runs over no entries.
\<close>

fun load_entries :: "golib \<Rightarrow> filesystem \<Rightarrow> string list \<Rightarrow> Campaign \<Rightarrow> outcome \<times> Campaign"
where
  "load_entries lib fs [] cam = (Success, cam)"
| "load_entries lib fs (metafilename # rest) cam =
     (if HasSuffix metafilename FileMetadataSuffix then
        (let linkname = take (length metafilename - length FileMetadataSuffix) metafilename;
             loaded = RawMetadataFromFile lib fs (Join [path cam, metafilename])
                        (campaignMetadata cam)
         in case fileMetadata cam of
              None \<Rightarrow> (Panic ''assignment to entry in nil map'', cam)
            | Some fm \<Rightarrow>
                (case loaded of
                   Inl e \<Rightarrow> (Failure e, cam\<lparr>fileMetadata := Some (fm(linkname \<mapsto> None))\<rparr>)
                 | Inr md \<Rightarrow>
                     (case updateFileVirtualMetadata fs linkname
                             (cam\<lparr>fileMetadata := Some (fm(linkname \<mapsto> Some md))\<rparr>) of
                        (Success, cam') \<Rightarrow> load_entries lib fs rest cam'
                      | (out, cam') \<Rightarrow> (out, cam'))))
      else load_entries lib fs rest cam)"

definition reloadMetadata :: "golib \<Rightarrow> filesystem \<Rightarrow> bool \<Rightarrow> Campaign \<Rightarrow> outcome \<times> Campaign"
where
  "reloadMetadata lib fs force cam =
     (if \<not> force \<and> \<not> stale cam then (Success, cam)
      else (case RawMetadataFromFile lib fs (Join [path cam, CampaignMetadataFilename]) None of
              Inl e \<Rightarrow> (Failure e, cam\<lparr>campaignMetadata := None\<rparr>)
            | Inr md \<Rightarrow>
                (let cam1 = cam\<lparr>campaignMetadata := Some md\<rparr>;
                     direntries = (case fs_readdir fs (path cam) of None \<Rightarrow> [] | Some ns \<Rightarrow> ns)
                 in case load_entries lib fs direntries cam1 of
                      (Success, cam2) \<Rightarrow> (Success, cam2\<lparr>stale := False\<rparr>)
                    | (out, cam2) \<Rightarrow> (out, cam2))))"

text \<open>\<^verbatim>\<open>func (cam *Campaign) unloadMetadata()\<close>.\<close>

definition unloadMetadata :: "Campaign \<Rightarrow> Campaign" where
  "unloadMetadata cam = cam\<lparr>campaignMetadata := None, fileMetadata := None, stale := True\<rparr>"

text \<open>
  \<^verbatim>\<open>newCampaign(config, name, nil)\<close>: the campaign as the scan of the store creates
  it, stale, with an empty map.
\<close>

definition newCampaign :: "PTOConfiguration \<Rightarrow> string \<Rightarrow> Campaign" where
  "newCampaign cfg name =
     \<lparr>config = cfg, path = Join [RawRoot cfg, name], stale = True,
      campaignMetadata = None, fileMetadata = Some Map.empty\<rparr>"

text \<open>The record that the cache holds for a file name, when it holds one.\<close>

definition file_record :: "Campaign \<Rightarrow> string \<Rightarrow> RawMetadata option" where
  "file_record cam filename =
     (case fileMetadata cam of
        None \<Rightarrow> None
      | Some fm \<Rightarrow> (case fm filename of Some (Some md) \<Rightarrow> Some md | _ \<Rightarrow> None))"

section \<open>Observations and observation sets\<close>

record Condition =
  Condition_ID :: int
  Condition_Name :: string

record Path =
  Path_ID :: int
  Path_String :: string

text \<open>
  \<^verbatim>\<open>type ObservationSet struct\<close>. \<open>Sources\<close> is a slice, \<open>None\<close> when nil; the
  metadata map is the list of its entries, with distinct keys, in the order in which
  \<^verbatim>\<open>range\<close> visits them.
\<close>

record ObservationSet =
  Set_ID :: int
  Sources :: "string list option"
  Analyzer :: string
  Set_Metadata :: "(string \<times> string) list"
  Set_datalink :: string
  Set_link :: string
  Set_count :: int

text \<open>The assignment \<^verbatim>\<open>m[k] = v\<close> on a map held as the list of its entries.\<close>

fun map_store :: "string \<Rightarrow> 'v \<Rightarrow> (string \<times> 'v) list \<Rightarrow> (string \<times> 'v) list" where
  "map_store k v [] = [(k, v)]"
| "map_store k v ((k', v') # m) = (if k = k' then (k, v) # m else (k', v') # map_store k v m)"

text \<open>
  \<^verbatim>\<open>func (set *ObservationSet) MarshalJSON() ([]byte, error)\<close>: the object that
  is written. Strings are written as they are, as \<^verbatim>\<open>json.Marshal\<close> does for
  valid UTF-8.
\<close>

definition MarshalJSON_ObservationSet :: "ObservationSet \<Rightarrow> jvalue" where
  "MarshalJSON_ObservationSet oset =
     (let jmap0 = map_store ''_sources''
                    (case Sources oset of None \<Rightarrow> JNull | Some ss \<Rightarrow> JArray (map JString ss)) [];
          jmap1 = map_store ''_analyzer'' (JString (Analyzer oset)) jmap0;
          jmap2 = (if Set_link oset \<noteq> [] then map_store ''__link'' (JString (Set_link oset)) jmap1
                   else jmap1);
          jmap3 = (if Set_datalink oset \<noteq> []
                   then map_store ''__data'' (JString (Set_datalink oset)) jmap2 else jmap2);
          jmap4 = (if Set_count oset \<noteq> 0
                   then map_store ''__obs_count'' (JNumber (Set_count oset)) jmap3 else jmap3)
      in JObject (foldl (\<lambda>jmap kv. map_store (fst kv) (JString (snd kv)) jmap) jmap4
                   (Set_Metadata oset)))"

text \<open>
  \<^verbatim>\<open>func (set *ObservationSet) UnmarshalJSON(b []byte) error\<close>, on the set it is
  called on. \<open>unmarshal_set_keys\<close> is the loop over the decoded object.
\<close>

fun unmarshal_set_keys ::
  "(string \<times> jvalue) list \<Rightarrow> ObservationSet \<Rightarrow> pto_error option \<times> ObservationSet" where
  "unmarshal_set_keys [] oset = (None, oset)"
| "unmarshal_set_keys ((k, v) # rest) oset =
     (if k = ''_sources'' then
        (case AsStringArray v of
           None \<Rightarrow> (Some (GoError ''_sources not a string array''), oset\<lparr>Sources := None\<rparr>)
         | Some ss \<Rightarrow> unmarshal_set_keys rest (oset\<lparr>Sources := Some ss\<rparr>))
      else if k = ''_analyzer'' then unmarshal_set_keys rest (oset\<lparr>Analyzer := AsString v\<rparr>)
      else if HasPrefix k ''__'' then unmarshal_set_keys rest oset
      else unmarshal_set_keys rest
             (oset\<lparr>Set_Metadata := map_store k (AsString v) (Set_Metadata oset)\<rparr>))"

definition UnmarshalJSON_ObservationSet ::
  "jvalue option \<Rightarrow> ObservationSet \<Rightarrow> pto_error option \<times> ObservationSet" where
  "UnmarshalJSON_ObservationSet b oset0 =
     (let oset1 = oset0\<lparr>Set_Metadata := []\<rparr>
      in case (case b of
                 Some JNull \<Rightarrow> Some []
               | Some (JObject jmap) \<Rightarrow> Some jmap
               | _ \<Rightarrow> None) of
           None \<Rightarrow> (Some (GoError ''json.Unmarshal''), oset1)
         | Some jmap \<Rightarrow>
             (case unmarshal_set_keys jmap (oset1\<lparr>Set_ID := 0\<rparr>) of
                (Some e, oset2) \<Rightarrow> (Some e, oset2)
              | (None, oset2) \<Rightarrow>
                  if Sources oset2 = None
                  then (Some (GoError ''ObservationSet missing _sources''), oset2)
                  else if Analyzer oset2 = []
                  then (Some (GoError ''ObservationSet missing _analyzer''), oset2)
                  else (None, oset2)))"

text \<open>\<^verbatim>\<open>type Observation struct\<close>; the three pointers may be nil.\<close>

record Observation =
  Obs_ID :: int
  SetID :: int
  Obs_Set :: "ObservationSet option"
  Start :: time
  End :: time
  PathID :: int
  Obs_Path :: "Path option"
  ConditionID :: int
  Obs_Condition :: "Condition option"
  Value :: int

text \<open>
  \<^verbatim>\<open>func (obs *Observation) MarshalJSON() ([]byte, error)\<close>: the array that is
  written. \<open>None\<close> is the panic of reading through a nil \<^verbatim>\<open>Path\<close> or
  \<^verbatim>\<open>Condition\<close>. Strings are written as they are, as \<^verbatim>\<open>json.Marshal\<close>
  does for valid UTF-8.
\<close>

definition MarshalJSON_Observation :: "golib \<Rightarrow> Observation \<Rightarrow> jvalue option" where
  "MarshalJSON_Observation lib obs =
     (case (Obs_Path obs, Obs_Condition obs) of
        (Some p, Some c) \<Rightarrow>
          (let jslice = [JNumber (SetID obs),
                         JString (time_Format lib (Start obs)),
                         JString (time_Format lib (End obs)),
                         JString (Path_String p),
                         JString (Condition_Name c)]
           in Some (JArray (if Value obs \<noteq> 0 then jslice @ [JNumber (Value obs)] else jslice)))
      | _ \<Rightarrow> None)"

text \<open>The zero \<^verbatim>\<open>time.Time\<close>, which \<^verbatim>\<open>time.Parse\<close> returns with an error.\<close>

definition zero_time :: time where
  "zero_time = - 62135596800000000000"

text \<open>
  \<^verbatim>\<open>func (obs *Observation) UnmarshalJSON(b []byte) error\<close>, on the observation
  it is called on. A JSON null decodes to the nil slice. The error of the first
  \<^verbatim>\<open>strconv.Atoi\<close> is overwritten by the next assignment to \<^verbatim>\<open>err\<close>.
\<close>

definition UnmarshalJSON_Observation ::
  "golib \<Rightarrow> jvalue option \<Rightarrow> Observation \<Rightarrow> pto_error option \<times> Observation" where
  "UnmarshalJSON_Observation lib b obs0 =
     (case (case b of
              Some JNull \<Rightarrow> Some []
            | Some (JArray vs) \<Rightarrow> Some vs
            | _ \<Rightarrow> None) of
        None \<Rightarrow> (Some (GoError ''json.Unmarshal''), obs0)
      | Some jslice \<Rightarrow>
          if length jslice < 5
          then (Some (GoError ''Observation requires at least five elements''), obs0)
          else
            (let obs1 = obs0\<lparr>Obs_ID := 0, SetID := fst (Atoi (AsString (jslice ! 0)))\<rparr>
             in case time_Parse lib (AsString (jslice ! 1)) of
                  None \<Rightarrow> (Some (GoError ''time.Parse''), obs1\<lparr>Start := zero_time\<rparr>)
                | Some t1 \<Rightarrow>
                    (case time_Parse lib (AsString (jslice ! 2)) of
                       None \<Rightarrow>
                         (Some (GoError ''time.Parse''), obs1\<lparr>Start := t1, End := zero_time\<rparr>)
                     | Some t2 \<Rightarrow>
                         (let obs2 = obs1\<lparr>Start := t1, End := t2,
                                Obs_Path := Some \<lparr>Path_ID = 0,
                                  Path_String = AsString (jslice ! 3)\<rparr>,
                                Obs_Condition := Some \<lparr>Condition_ID = 0,
                                  Condition_Name = AsString (jslice ! 4)\<rparr>\<rparr>
                          in if length jslice \<ge> 6 then
                               (let r = Atoi (AsString (jslice ! 5))
                                in (if snd r then Some (GoError ''strconv.Atoi'') else None,
                                    obs2\<lparr>Value := fst r\<rparr>))
                             else (None, obs2)))))"

text \<open>The zero value \<^verbatim>\<open>var obs Observation\<close>.\<close>

definition zero_Observation :: Observation where
  "zero_Observation =
     \<lparr>Obs_ID = 0, SetID = 0, Obs_Set = None, Start = zero_time, End = zero_time, PathID = 0,
      Obs_Path = None, ConditionID = 0, Obs_Condition = None, Value = 0\<rparr>"

text \<open>
  The keys of an observation set's metadata that are free for extensions: not one
  of the two mandatory keys and not in the reserved namespace. \<open>reserved_entries\<close>
  are the entries that \<open>MarshalJSON_ObservationSet\<close> writes before them.
\<close>

definition extension_key :: "string \<Rightarrow> bool" where
  "extension_key k = (k \<noteq> ''_sources'' \<and> k \<noteq> ''_analyzer'' \<and> \<not> HasPrefix k ''__'')"

definition reserved_entries :: "ObservationSet \<Rightarrow> (string \<times> jvalue) list" where
  "reserved_entries oset =
     [(''_sources'', case Sources oset of None \<Rightarrow> JNull | Some ss \<Rightarrow> JArray (map JString ss)),
      (''_analyzer'', JString (Analyzer oset))]
     @ (if Set_link oset \<noteq> [] then [(''__link'', JString (Set_link oset))] else [])
     @ (if Set_datalink oset \<noteq> [] then [(''__data'', JString (Set_datalink oset))] else [])
     @ (if Set_count oset \<noteq> 0 then [(''__obs_count'', JNumber (Set_count oset))] else [])"

section \<open>Access to the data files of a campaign\<close>

text \<open>
  What a call did with the file system: its result, an error or the path of the
  file it has opened, and the paths it gave to \<^verbatim>\<open>os.Stat\<close>, \<^verbatim>\<open>os.Open\<close> and
  \<^verbatim>\<open>os.Create\<close>, in order.
\<close>

record access =
  result :: "pto_error + string"
  touched :: "string list"

text \<open>
  \<^verbatim>\<open>func (cam *Campaign) ReadFileData(filename string) (*os.File, error)\<close>. The
  error of \<^verbatim>\<open>filepath.Match\<close> is dropped by the code.
\<close>

definition ReadFileData :: "filesystem \<Rightarrow> Campaign \<Rightarrow> string \<Rightarrow> access" where
  "ReadFileData fs cam filename =
     (let rawpath = Clean (Join [path cam, filename]);
          pathok = Match (Join [path cam, ''*'']) rawpath
      in if \<not> pathok
         then \<lparr>result = Inl (PTOErrorStatus (''path '' @ rawpath @ '' is not ok'') 500),
               touched = []\<rparr>
         else \<lparr>result = (case fs_read fs rawpath of
                            OpenError \<Rightarrow> Inl (GoError ''os.Open'')
                          | _ \<Rightarrow> Inr rawpath),
               touched = [rawpath]\<rparr>)"

text \<open>
  \<^verbatim>\<open>func (cam *Campaign) WriteFileData(filename string, force bool) (*os.File, error)\<close>.
\<close>

definition WriteFileData :: "filesystem \<Rightarrow> Campaign \<Rightarrow> string \<Rightarrow> bool \<Rightarrow> access" where
  "WriteFileData fs cam filename force =
     (let rawpath = Clean (Join [path cam, filename]);
          pathok = Match (Join [path cam, ''*'']) rawpath
      in if \<not> pathok
         then \<lparr>result = Inl (PTOErrorStatus (''path '' @ rawpath @ '' is not ok'') 500),
               touched = []\<rparr>
         else if \<not> force \<and> fs_stat fs rawpath \<noteq> StatNotExist
         then \<lparr>result = Inl (PTOExistsError ''file'' filename), touched = [rawpath]\<rparr>
         else \<lparr>result = (if fs_create fs rawpath then Inr rawpath
                          else Inl (GoError ''os.Create'')),
               touched = (if force then [rawpath] else [rawpath, rawpath])\<rparr>)"

text \<open>
  A plain file name is one path element: not empty, without a slash, and neither
  \<^verbatim>\<open>.\<close> nor \<^verbatim>\<open>..\<close>. A path lies directly inside a directory when it is the
  directory, a slash and a plain name.
\<close>

definition plain_name :: "string \<Rightarrow> bool" where
  "plain_name f = (f \<noteq> [] \<and> f \<noteq> ''.'' \<and> f \<noteq> ''..'' \<and> CHR ''/'' \<notin> set f)"

definition directly_inside :: "string \<Rightarrow> string \<Rightarrow> bool" where
  "directly_inside dir p =
     (take (length dir + 1) p = dir @ ''/'' \<and> plain_name (drop (length dir + 1) p))"

text \<open>
  The campaign directories of the theorem on the path check: a cleaned path, as
  \<^verbatim>\<open>filepath.Join\<close> returns it, other than the root and the current directory,
  whose last element is a name, and in which no character has a meaning for
  \<^verbatim>\<open>filepath.Match\<close>.
\<close>

definition pattern_free :: "string \<Rightarrow> bool" where
  "pattern_free p = (\<forall>c\<in>set p. c \<noteq> CHR ''*'' \<and> c \<noteq> CHR ''?'' \<and> c \<noteq> CHR ''['' \<and> c \<noteq> CHR 0x5C)"

definition campaign_dir :: "string \<Rightarrow> bool" where
  "campaign_dir p =
     (Clean p = p \<and> p \<noteq> ''/'' \<and> p \<noteq> ''.'' \<and> last (split_sep p) \<noteq> ''..'' \<and> pattern_free p)"

text \<open>
  What \<open>Clean\<close> keeps while it consumes the elements of a path: the elements kept
  are not empty, are not \<^verbatim>\<open>.\<close> and hold no slash, and below a \<^verbatim>\<open>..\<close> there are
  only \<^verbatim>\<open>..\<close> elements.
\<close>

fun dotdot_below :: "string list \<Rightarrow> bool" where
  "dotdot_below [] = True"
| "dotdot_below (c # st) = ((c = ''..'' \<longrightarrow> (\<forall>d\<in>set st. d = ''..'')) \<and> dotdot_below st)"

definition kept :: "string list \<Rightarrow> bool" where
  "kept st = ((\<forall>c\<in>set st. c \<noteq> [] \<and> c \<noteq> ''.'' \<and> CHR ''/'' \<notin> set c) \<and> dotdot_below st)"

section \<open>A campaign on disk\<close>

text \<open>
  The data of the examples. The library functions know the two time stamps of the
  observation in the package's test. The campaign is \<^verbatim>\<open>test\<close> under the root \<^verbatim>\<open>/raw\<close>, owned
  by alice, with the file \<^verbatim>\<open>a.dat\<close> of 10 bytes, written at time 200, and its
  metadata file, written at time 100. \<open>with_data\<close> says whether the data file is there,
  and \<open>names\<close> is the listing of the campaign's directory. The metadata file of
  \<^verbatim>\<open>b.dat\<close> is not JSON, and neither is the data file.
\<close>

definition example_lib :: golib where
  "example_lib =
     \<lparr>time_Parse = (\<lambda>s. if s = ''2009-02-20T13:00:34Z'' then Some 1235134834000000000
                         else if s = ''2009-02-20T13:15:17Z'' then Some 1235135717000000000
                         else None),
      time_Format = (\<lambda>t. if t = 1235134834000000000 then ''2009-02-20T13:00:34Z''
                          else if t = 1235135717000000000 then ''2009-02-20T13:15:17Z''
                          else [])\<rparr>"

definition example_config :: PTOConfiguration where
  "example_config =
     \<lparr>RawRoot = ''/raw'', LinkTo = (\<lambda>s. (''https://pto.example/'' @ s, None))\<rparr>"

definition example_stat :: "bool \<Rightarrow> string \<Rightarrow> stat_result" where
  "example_stat with_data p =
     (if p = ''/raw/test/a.dat'' \<and> with_data then StatOK 10 200
      else if p = ''/raw/test/a.dat.pto_file_metadata.json'' then StatOK 60 100
      else StatNotExist)"

definition example_read :: "bool \<Rightarrow> string \<Rightarrow> read_result" where
  "example_read with_data p =
     (if p = ''/raw/test/__pto_campaign_metadata.json''
      then Bytes (Some (JObject [(''_owner'', JString ''alice'')]))
      else if p = ''/raw/test/a.dat.pto_file_metadata.json''
      then Bytes (Some (JObject [(''_file_type'', JString ''x'')]))
      else if p = ''/raw/test/b.dat.pto_file_metadata.json''
      then Bytes None
      else if p = ''/raw/test/a.dat'' \<and> with_data
      then Bytes None
      else OpenError)"

definition example_fs :: "bool \<Rightarrow> string list \<Rightarrow> filesystem" where
  "example_fs with_data names =
     \<lparr>fs_stat = example_stat with_data, fs_read = example_read with_data,
      fs_readdir = (\<lambda>p. if p = ''/raw/test'' then Some names else None),
      fs_create = (\<lambda>p. True)\<rparr>"

section \<open>Inheritance and validation of metadata records\<close>

lemma selectors_set_Parent:
  "Parent (set_Parent p md) = p" "owner (set_Parent p md) = owner md"
  "filetype (set_Parent p md) = filetype md" "Metadata (set_Parent p md) = Metadata md"
  "timeStart (set_Parent p md) = timeStart md" "timeEnd (set_Parent p md) = timeEnd md"
  by (simp_all add: set_Parent_def)

text \<open>
  Claim C8. A record whose own owner is absent and whose parent is \<open>p\<close> reports
  \<open>p\<close>'s own owner field when asked with inheritance and the empty (absent) owner when
  asked without. The answer is \<open>p\<close>'s local field whatever \<open>p\<close>'s own parent \<open>gp\<close> is, so
  the lookup never goes further than one level. \<open>Get\<close> behaves the same way on an
  extension key whose local value is absent.
\<close>

theorem C8_inherit_one_level:
  assumes "md = set_Parent (Some (set_Parent gp p)) md0"
    and "owner md0 = []"
    and "map_get (Metadata md0) k = []"
  shows "Owner md True = owner p \<and> Owner md False = []
       \<and> Get md k True = map_get (Metadata p) k \<and> Get md k False = []"
  using assms by (simp add: Owner_def Get_def selectors_set_Parent)

text \<open>
  A file record without an owner under a campaign owned by alice; and the same file
  record under a campaign without an owner, whose own parent has one, which is not
  looked at.
\<close>

theorem C8_inherit_one_level_witness:
  "Owner (set_Parent (Some (set_Parent None
        (RawMetadata None [] ''alice'' None None [''k'' \<mapsto> ''v''] [] 0 None None)))
      (RawMetadata None ''pcap'' [] None None Map.empty [] 0 None None)) True = ''alice''
   \<and> Owner (set_Parent (Some (set_Parent None
        (RawMetadata None [] ''alice'' None None [''k'' \<mapsto> ''v''] [] 0 None None)))
      (RawMetadata None ''pcap'' [] None None Map.empty [] 0 None None)) False = []
   \<and> Get (set_Parent (Some (set_Parent None
        (RawMetadata None [] ''alice'' None None [''k'' \<mapsto> ''v''] [] 0 None None)))
      (RawMetadata None ''pcap'' [] None None Map.empty [] 0 None None)) ''k'' True = ''v''
   \<and> Owner (set_Parent (Some (set_Parent
        (Some (RawMetadata None [] ''root'' None None [''k'' \<mapsto> ''far''] [] 0 None None))
        (RawMetadata None [] [] None None Map.empty [] 0 None None)))
      (RawMetadata None ''pcap'' [] None None Map.empty [] 0 None None)) True = []
   \<and> Get (set_Parent (Some (set_Parent
        (Some (RawMetadata None [] ''root'' None None [''k'' \<mapsto> ''far''] [] 0 None None))
        (RawMetadata None [] [] None None Map.empty [] 0 None None)))
      (RawMetadata None ''pcap'' [] None None Map.empty [] 0 None None)) ''k'' True = []"
  using C8_inherit_one_level
    [of _ None "RawMetadata None [] ''alice'' None None [''k'' \<mapsto> ''v''] [] 0 None None"
        "RawMetadata None ''pcap'' [] None None Map.empty [] 0 None None" "''k''", OF refl]
    C8_inherit_one_level
    [of _ "Some (RawMetadata None [] ''root'' None None [''k'' \<mapsto> ''far''] [] 0 None None)"
        "RawMetadata None [] [] None None Map.empty [] 0 None None"
        "RawMetadata None ''pcap'' [] None None Map.empty [] 0 None None" "''k''", OF refl]
  by (simp add: map_get_def)

text \<open>
  Claim C7. Let \<open>ow\<close>, \<open>ft\<close>, \<open>ts\<close> and \<open>te\<close> be the owner, the file type, the start time
  and the end time of a record after inheritance: the record's own field, and when
  that is absent the same field of the parent record, if there is a parent. At
  campaign level \<open>validate\<close> fails exactly when \<open>ow\<close> is absent, with the missing-field
  error for the owner, and asks for nothing else. At file level it asks for \<open>ow\<close>, \<open>ft\<close>,
  \<open>ts\<close> and \<open>te\<close> in this order and fails with the missing-field error of the first
  that is absent; so it succeeds exactly when all four are present, and a record
  with owner and file type but no start time, neither its own nor its parent's,
  fails with the missing-field error for the start time. The code names a field by
  its key in the JSON form (\<^verbatim>\<open>_owner\<close>, \<^verbatim>\<open>_time_start\<close>).
\<close>

theorem C7_validate:
  assumes "ow = (if owner md = [] then (case Parent md of None \<Rightarrow> [] | Some p \<Rightarrow> owner p)
                 else owner md)"
    and "ft = (if filetype md = [] then (case Parent md of None \<Rightarrow> [] | Some p \<Rightarrow> filetype p)
               else filetype md)"
    and "ts = (if timeStart md = None
               then (case Parent md of None \<Rightarrow> None | Some p \<Rightarrow> timeStart p)
               else timeStart md)"
    and "te = (if timeEnd md = None
               then (case Parent md of None \<Rightarrow> None | Some p \<Rightarrow> timeEnd p)
               else timeEnd md)"
  shows "validate md True
           = (if ow = [] then Some (PTOMissingMetadataError ''_owner'') else None)
       \<and> validate md False
           = (if ow = [] then Some (PTOMissingMetadataError ''_owner'')
              else if ft = [] then Some (PTOMissingMetadataError ''_file_type'')
              else if ts = None then Some (PTOMissingMetadataError ''_time_start'')
              else if te = None then Some (PTOMissingMetadataError ''_time_end'')
              else None)
       \<and> ((validate md False = None) = (ow \<noteq> [] \<and> ft \<noteq> [] \<and> ts \<noteq> None \<and> te \<noteq> None))
       \<and> (ow \<noteq> [] \<and> ft \<noteq> [] \<and> timeStart md = None
            \<and> (case Parent md of None \<Rightarrow> True | Some p \<Rightarrow> timeStart p = None)
          \<longrightarrow> validate md False = Some (PTOMissingMetadataError ''_time_start''))"
proof -
  have ow: "Owner md True = ow"
    unfolding assms(1) by (cases "Parent md") (simp_all add: Owner_def)
  have ft: "Filetype md True = ft"
    unfolding assms(2) by (cases "Parent md") (simp_all add: Filetype_def)
  have ts: "TimeStart md True = ts"
    unfolding assms(3) by (cases "Parent md") (simp_all add: TimeStart_def)
  have te: "TimeEnd md True = te"
    unfolding assms(4) by (cases "Parent md") (simp_all add: TimeEnd_def)
  have none: "ts = None"
    if "timeStart md = None" "case Parent md of None \<Rightarrow> True | Some p \<Rightarrow> timeStart p = None"
    using that unfolding assms(3) by (cases "Parent md") simp_all
  have v: "validate md isCampaign
      = (if ow = [] then Some (PTOMissingMetadataError ''_owner'')
         else if isCampaign then None
         else if ft = [] then Some (PTOMissingMetadataError ''_file_type'')
         else if ts = None then Some (PTOMissingMetadataError ''_time_start'')
         else if te = None then Some (PTOMissingMetadataError ''_time_end'')
         else None)" for isCampaign
    by (simp add: validate_def ow ft ts te)
  show ?thesis
    using none by (simp add: v)
qed

text \<open>
  A campaign record without an owner; a file record with a file type and an end
  time under a campaign that gives the owner, where nobody gives a start time; and a
  file record with no field of its own under a campaign that gives all four.
\<close>

theorem C7_validate_witness:
  "validate (RawMetadata None [] [] None None Map.empty [] 0 None None) True
      = Some (PTOMissingMetadataError ''_owner'')
   \<and> validate (RawMetadata
        (Some (RawMetadata None [] ''alice'' None None Map.empty [] 0 None None))
        ''pcap'' [] None (Some 7) Map.empty [] 0 None None) False
      = Some (PTOMissingMetadataError ''_time_start'')
   \<and> validate (RawMetadata
        (Some (RawMetadata None ''pcap'' ''alice'' (Some 3) (Some 7) Map.empty [] 0 None None))
        [] [] None None Map.empty [] 0 None None) False
      = None"
  using C7_validate [OF refl refl refl refl, THEN conjunct1,
      of "RawMetadata None [] [] None None Map.empty [] 0 None None"]
    C7_validate [OF refl refl refl refl, THEN conjunct2, THEN conjunct1,
      of "RawMetadata
        (Some (RawMetadata None [] ''alice'' None None Map.empty [] 0 None None))
        ''pcap'' [] None (Some 7) Map.empty [] 0 None None"]
    C7_validate [OF refl refl refl refl, THEN conjunct2, THEN conjunct1,
      of "RawMetadata
        (Some (RawMetadata None ''pcap'' ''alice'' (Some 3) (Some 7) Map.empty [] 0 None None))
        [] [] None None Map.empty [] 0 None None"]
  by simp

section \<open>Bulk registration of paths\<close>

lemma go_int_id: "- (2 ^ 63) \<le> x \<Longrightarrow> x < 2 ^ 63 \<Longrightarrow> go_int x = x"
  by (simp add: go_int_def)

lemma go_int_pos:
  assumes "0 \<le> x" "x < 2 ^ 64" "1 \<le> go_int x"
  shows "go_int x = x \<and> x < 2 ^ 63"
proof (cases "x < 2 ^ 63")
  case True
  then show ?thesis using assms by (simp add: go_int_id)
next
  case False
  have e: "x + 2 ^ 63 = (x - 2 ^ 63) + 2 ^ 64" by simp
  have "(x + 2 ^ 63) mod 2 ^ 64 = ((x - 2 ^ 63) + 2 ^ 64) mod 2 ^ 64"
    by (simp only: e)
  also have "\<dots> = (x - 2 ^ 63) mod 2 ^ 64"
    by (rule mod_add_self2)
  also have "\<dots> = x - 2 ^ 63"
    by (rule mod_pos_pos_trivial) (use assms False in auto)
  finally have "go_int x = x - 2 ^ 64"
    by (simp add: go_int_def)
  then show ?thesis using assms by simp
qed

lemma stream_other:
  "s \<notin> set ps \<Longrightarrow> fst (stream_paths ps q c out) s = c s"
  by (induction ps arbitrary: q c out) auto

lemma stream_ids:
  "distinct ps \<Longrightarrow> 0 \<le> q \<Longrightarrow> q + int (length ps) < 2 ^ 63 \<Longrightarrow> i < length ps \<Longrightarrow>
     fst (stream_paths ps q c out) (ps ! i) = Some (q + int i)"
proof (induction ps arbitrary: q c out i)
  case Nil
  then show ?case by simp
next
  case (Cons p ps)
  have g: "go_int (q + 1) = q + 1"
    using Cons.prems by (intro go_int_id) auto
  show ?case
  proof (cases i)
    case 0
    then show ?thesis using Cons.prems by (simp add: stream_other)
  next
    case (Suc j)
    have "fst (stream_paths (p # ps) q c out) ((p # ps) ! i)
        = fst (stream_paths ps (q + 1) (c(p \<mapsto> q)) (out @ [(q, p)])) (ps ! j)"
      using Suc g by simp
    also have "\<dots> = Some (q + 1 + int j)"
      by (rule Cons.IH) (use Cons.prems Suc in auto)
    finally show ?thesis using Suc by simp
  qed
qed

lemma stream_rows:
  "0 \<le> q \<Longrightarrow> q + int (length ps) < 2 ^ 63 \<Longrightarrow>
     snd (stream_paths ps q c out) = out @ map (\<lambda>i. (q + int i, ps ! i)) [0..<length ps]"
proof (induction ps arbitrary: q c out)
  case Nil
  then show ?case by simp
next
  case (Cons p ps)
  have g: "go_int (q + 1) = q + 1"
    using Cons.prems by (intro go_int_id) auto
  have m: "map (\<lambda>i. (q + int i, (p # ps) ! i)) [0..<length (p # ps)]
      = (q, p) # map (\<lambda>i. (q + 1 + int i, ps ! i)) [0..<length ps]"
    by (simp add: upt_conv_Cons map_Suc_upt [symmetric] add.assoc del: upt_Suc)
  have "snd (stream_paths (p # ps) q c out)
      = snd (stream_paths ps (q + 1) (c(p \<mapsto> q)) (out @ [(q, p)]))"
    using g by simp
  also have "\<dots> = (out @ [(q, p)]) @ map (\<lambda>i. (q + 1 + int i, ps ! i)) [0..<length ps]"
    by (rule Cons.IH) (use Cons.prems in auto)
  finally show ?case unfolding m by simp
qed

lemma length_prefilter: "length (prefilter cache ps) \<le> length ps"
  by (simp add: prefilter_def)

lemma cnp_pathSet_eq: "cnp_pathSet (CacheNewPaths flt db cache ps0) = prefilter cache ps0"
  by (simp add: CacheNewPaths_def Let_def split: option.splits prod.splits)

lemma cnp_success:
  assumes ok: "cnp_err (CacheNewPaths flt db cache ps0) = None"
    and seq: "0 \<le> paths_id_seq db"
    and len: "int (length ps0) < 2 ^ 63"
  shows "paths_id_seq db + 1 + int (length (prefilter cache ps0)) < 2 ^ 63
    \<and> cnp_cache (CacheNewPaths flt db cache ps0)
        = fst (stream_paths (prefilter cache ps0) (paths_id_seq db + 1) cache [])
    \<and> paths_id_seq (cnp_db (CacheNewPaths flt db cache ps0))
        = paths_id_seq db + 1 + int (length (prefilter cache ps0))
    \<and> paths (cnp_db (CacheNewPaths flt db cache ps0))
        = paths db @ snd (stream_paths (prefilter cache ps0) (paths_id_seq db + 1) cache [])"
proof -
  let ?ps = "prefilter cache ps0"
  let ?q = "paths_id_seq db + 1"
  let ?v = "go_int (?q + int (length ?ps))"
  have n: "int (length ?ps) < 2 ^ 63"
    using len length_prefilter [of cache ps0] by linarith
  have f: "\<not> QueryOne_fails flt" "\<not> Exec_fails flt" "\<not> Pipe_fails flt"
      "\<not> CopyFrom_fails flt" "\<not> Write_fails flt"
    using ok
    by (auto simp: CacheNewPaths_def Let_def split: option.splits prod.splits if_splits)
  have nv: "nextval db \<noteq> None"
    using ok f by (auto simp: CacheNewPaths_def Let_def split: option.splits)
  then have top: "paths_id_seq db < 2 ^ 63 - 1"
    by (auto simp: nextval_def split: if_splits)
  then have nv': "nextval db = Some (?q, db\<lparr>paths_id_seq := ?q\<rparr>)"
    by (simp add: nextval_def)
  have sv: "setval ?v (db\<lparr>paths_id_seq := ?q\<rparr>) \<noteq> None"
    using ok f nv' by (auto simp: CacheNewPaths_def Let_def split: option.splits)
  then have "1 \<le> ?v"
    by (auto simp: setval_def split: if_splits)
  moreover have "0 \<le> ?q + int (length ?ps)" "?q + int (length ?ps) < 2 ^ 64"
    using seq top n by auto
  ultimately have v: "?v = ?q + int (length ?ps)" "?q + int (length ?ps) < 2 ^ 63"
    using go_int_pos [of "?q + int (length ?ps)"] by auto
  then have sv': "setval ?v (db\<lparr>paths_id_seq := ?q\<rparr>)
      = Some (db\<lparr>paths_id_seq := ?q + int (length ?ps)\<rparr>)"
    using sv by (auto simp: setval_def split: if_splits)
  show ?thesis
    using f nv' sv' v(2)
    by (simp add: CacheNewPaths_def Let_def split: prod.splits)
qed

lemma stream_member:
  "s \<in> set ps \<Longrightarrow> 0 \<le> q \<Longrightarrow> q + int (length ps) < 2 ^ 63 \<Longrightarrow>
     \<exists>i<length ps. fst (stream_paths ps q c out) s = Some (q + int i)"
proof (induction ps arbitrary: q c out)
  case Nil
  then show ?case by simp
next
  case (Cons p ps)
  have g: "go_int (q + 1) = q + 1"
    using Cons.prems by (intro go_int_id) auto
  show ?case
  proof (cases "s \<in> set ps")
    case True
    have "\<exists>i<length ps. fst (stream_paths ps (q + 1) (c(p \<mapsto> q)) (out @ [(q, p)])) s
        = Some (q + 1 + int i)"
      by (rule Cons.IH) (use Cons.prems True in auto)
    then obtain i where "i < length ps"
      "fst (stream_paths (p # ps) q c out) s = Some (q + int (Suc i))"
      using g by auto
    then show ?thesis by (intro exI [of _ "Suc i"]) simp
  next
    case False
    then have "s = p" using Cons.prems by simp
    then have "fst (stream_paths (p # ps) q c out) s = Some (q + int 0)"
      using False by (simp add: stream_other)
    then show ?thesis by (intro exI [of _ 0]) simp
  qed
qed

lemma cnp_nothing_new:
  assumes "prefilter cache ps0 = []"
  shows "cnp_cache (CacheNewPaths flt db cache ps0) = cache
       \<and> paths (cnp_db (CacheNewPaths flt db cache ps0)) = paths db"
  using assms
  by (simp add: CacheNewPaths_def Let_def nextval_def setval_def
      split: option.splits prod.splits)

text \<open>
  Claim C1, amended. A call that returns no error, on a sequence whose last value is
  \<open>L \<ge> 0\<close>, leaves in the candidate set the \<open>N\<close> strings that pass the filter on the
  cache alone, and moves the sequence to \<open>L + N + 1\<close>: \<^verbatim>\<open>nextval\<close> takes one value
  and \<^verbatim>\<open>setval\<close> moves \<open>N\<close> further. The \<open>N\<close> strings get the ids
  \<open>L + 1, \<dots>, L + N\<close> in the order of the loop, which are mutually distinct; each
  string maps to its id in the cache afterwards, and the rows added to the table are
  these (id, string) pairs. The value \<open>L + N + 1\<close> is reserved and not used.
\<close>

theorem C1_reserved_block:
  assumes "r = CacheNewPaths flt db cache pathSet"
    and "cnp_err r = None"
    and "distinct pathSet"
    and "0 \<le> paths_id_seq db"
    and "int (length pathSet) < 2 ^ 63"
  shows "cnp_pathSet r = prefilter cache pathSet
       \<and> paths_id_seq (cnp_db r) = paths_id_seq db + int (length (cnp_pathSet r)) + 1
       \<and> map (cache_lookup (cnp_cache r)) (cnp_pathSet r)
           = map (\<lambda>i. paths_id_seq db + 1 + int i) [0..<length (cnp_pathSet r)]
       \<and> distinct (map (cache_lookup (cnp_cache r)) (cnp_pathSet r))
       \<and> paths (cnp_db r)
           = paths db @ zip (map (cache_lookup (cnp_cache r)) (cnp_pathSet r)) (cnp_pathSet r)"
proof -
  let ?ps = "prefilter cache pathSet"
  let ?q = "paths_id_seq db + 1"
  have ps: "cnp_pathSet r = ?ps"
    using assms(1) by (simp add: cnp_pathSet_eq)
  have d: "distinct ?ps"
    using assms(3) by (simp add: prefilter_def)
  have s: "?q + int (length ?ps) < 2 ^ 63"
    "cnp_cache r = fst (stream_paths ?ps ?q cache [])"
    "paths_id_seq (cnp_db r) = ?q + int (length ?ps)"
    "paths (cnp_db r) = paths db @ snd (stream_paths ?ps ?q cache [])"
    using cnp_success [of flt db cache pathSet] assms by simp_all
  have q0: "0 \<le> ?q" using assms(4) by simp
  have ids: "map (cache_lookup (cnp_cache r)) ?ps = map (\<lambda>i. ?q + int i) [0..<length ?ps]"
  proof (rule nth_equalityI)
    show "length (map (cache_lookup (cnp_cache r)) ?ps)
        = length (map (\<lambda>i. ?q + int i) [0..<length ?ps])"
      by simp
  next
    fix i assume "i < length (map (cache_lookup (cnp_cache r)) ?ps)"
    then have i: "i < length ?ps" by simp
    then have "cnp_cache r (?ps ! i) = Some (?q + int i)"
      unfolding s(2) using d q0 s(1) by (intro stream_ids)
    then show "map (cache_lookup (cnp_cache r)) ?ps ! i
        = map (\<lambda>i. ?q + int i) [0..<length ?ps] ! i"
      using i by (simp add: cache_lookup_def)
  qed
  have inj: "distinct (map (\<lambda>i. ?q + int i) [0..<length ?ps])"
    by (simp add: distinct_map inj_on_def)
  have rows: "snd (stream_paths ?ps ?q cache [])
      = zip (map (\<lambda>i. ?q + int i) [0..<length ?ps]) ?ps"
    unfolding stream_rows [OF q0 s(1)]
    by (rule nth_equalityI) simp_all
  show ?thesis
    unfolding ps using s(3,4) ids inj rows by simp
qed

text \<open>
  Claim C4. After a call that returned no error, a second call with the same
  candidate set, whatever fails in it, ends with an empty candidate set, the same
  cache and no new row in the table. In general the first call leaves in the
  candidate set exactly the strings the cache did not know with a positive id; the
  cache entry of every other string is unchanged, and the strings of the rows added
  to the table are the candidate set as the call leaves it.
\<close>

theorem C4_second_call:
  assumes "r1 = CacheNewPaths flt1 db cache pathSet"
    and "cnp_err r1 = None"
    and "0 \<le> paths_id_seq db"
    and "int (length pathSet) < 2 ^ 63"
    and "r2 = CacheNewPaths flt2 (cnp_db r1) (cnp_cache r1) pathSet"
  shows "cnp_pathSet r2 = [] \<and> cnp_cache r2 = cnp_cache r1
       \<and> paths (cnp_db r2) = paths (cnp_db r1)
       \<and> set (cnp_pathSet r1) = {s \<in> set pathSet. \<not> 0 < cache_lookup cache s}
       \<and> (\<forall>s. s \<notin> set (cnp_pathSet r1) \<longrightarrow> cnp_cache r1 s = cache s)
       \<and> map snd (paths (cnp_db r1)) = map snd (paths db) @ cnp_pathSet r1"
proof -
  let ?ps = "prefilter cache pathSet"
  let ?q = "paths_id_seq db + 1"
  have ps: "cnp_pathSet r1 = ?ps"
    using assms(1) by (simp add: cnp_pathSet_eq)
  have s: "?q + int (length ?ps) < 2 ^ 63"
    "cnp_cache r1 = fst (stream_paths ?ps ?q cache [])"
    "paths (cnp_db r1) = paths db @ snd (stream_paths ?ps ?q cache [])"
    using cnp_success [of flt1 db cache pathSet] assms by simp_all
  have q0: "0 \<le> ?q" using assms(3) by simp
  have known: "0 < cache_lookup (cnp_cache r1) x" if "x \<in> set pathSet" for x
  proof (cases "x \<in> set ?ps")
    case True
    then obtain i where "cnp_cache r1 x = Some (?q + int i)"
      unfolding s(2) using stream_member [OF True q0 s(1)] by blast
    then show ?thesis using assms(3) by (simp add: cache_lookup_def)
  next
    case False
    then have "cnp_cache r1 x = cache x"
      unfolding s(2) by (rule stream_other)
    moreover have "0 < cache_lookup cache x"
      using False that by (simp add: prefilter_def)
    ultimately show ?thesis by (simp add: cache_lookup_def)
  qed
  then have empty: "prefilter (cnp_cache r1) pathSet = []"
    by (simp add: prefilter_def)
  have "map snd (snd (stream_paths ?ps ?q cache [])) = ?ps"
    unfolding stream_rows [OF q0 s(1)]
    by (rule nth_equalityI) simp_all
  then have rows: "map snd (paths (cnp_db r1)) = map snd (paths db) @ ?ps"
    using s(3) by simp
  have "cnp_pathSet r2 = []"
    using assms(5) empty by (simp add: cnp_pathSet_eq)
  moreover have "cnp_cache r2 = cnp_cache r1" "paths (cnp_db r2) = paths (cnp_db r1)"
    using cnp_nothing_new [OF empty] assms(5) by simp_all
  moreover have "set (cnp_pathSet r1) = {s \<in> set pathSet. \<not> 0 < cache_lookup cache s}"
    unfolding ps by (auto simp: prefilter_def)
  moreover have "\<forall>s. s \<notin> set (cnp_pathSet r1) \<longrightarrow> cnp_cache r1 s = cache s"
    unfolding ps s(2) by (simp add: stream_other)
  ultimately show ?thesis using rows ps by simp
qed

lemma cnp_example:
  "CacheNewPaths no_faults \<lparr>paths_id_seq = 7, paths = []\<rparr> [''x'' \<mapsto> 5] [''a'', ''x'', ''b'']
    = \<lparr>cnp_err = None, cnp_db = \<lparr>paths_id_seq = 10, paths = [(8, ''a''), (9, ''b'')]\<rparr>,
       cnp_cache = [''x'' \<mapsto> 5, ''a'' \<mapsto> 8, ''b'' \<mapsto> 9], cnp_pathSet = [''a'', ''b'']\<rparr>"
  by (simp add: CacheNewPaths_def no_faults_def prefilter_def cache_lookup_def nextval_def
      setval_def go_int_def)

text \<open>
  A call with the cache knowing \<open>x\<close>, on a sequence at 7: two strings remain, they get
  the ids 8 and 9, and the sequence ends at 10.
\<close>

theorem C1_reserved_block_witness:
  "cnp_pathSet (CacheNewPaths no_faults \<lparr>paths_id_seq = 7, paths = []\<rparr> [''x'' \<mapsto> 5]
        [''a'', ''x'', ''b'']) = [''a'', ''b'']
   \<and> paths_id_seq (cnp_db (CacheNewPaths no_faults \<lparr>paths_id_seq = 7, paths = []\<rparr>
        [''x'' \<mapsto> 5] [''a'', ''x'', ''b''])) = 10
   \<and> map (cache_lookup (cnp_cache (CacheNewPaths no_faults \<lparr>paths_id_seq = 7, paths = []\<rparr>
        [''x'' \<mapsto> 5] [''a'', ''x'', ''b'']))) [''a'', ''b''] = [8, 9]"
  using C1_reserved_block [OF refl, of no_faults "\<lparr>paths_id_seq = 7, paths = []\<rparr>"
      "[''x'' \<mapsto> 5]" "[''a'', ''x'', ''b'']"]
  by (simp add: cnp_example prefilter_def cache_lookup_def upt_conv_Cons)

text \<open>
  Claim C1 as stated fails: in the same call two strings remain after the filter and
  the sequence has advanced by three.
\<close>

theorem C1_counterexample:
  "cnp_err (CacheNewPaths no_faults \<lparr>paths_id_seq = 7, paths = []\<rparr> [''x'' \<mapsto> 5]
        [''a'', ''x'', ''b'']) = None
   \<and> length (cnp_pathSet (CacheNewPaths no_faults \<lparr>paths_id_seq = 7, paths = []\<rparr>
        [''x'' \<mapsto> 5] [''a'', ''x'', ''b''])) = 2
   \<and> paths_id_seq (cnp_db (CacheNewPaths no_faults \<lparr>paths_id_seq = 7, paths = []\<rparr>
        [''x'' \<mapsto> 5] [''a'', ''x'', ''b''])) - 7 = 3"
  by (simp add: cnp_example)

text \<open>The call of the example above, made twice.\<close>

theorem C4_second_call_witness:
  "cnp_pathSet (CacheNewPaths no_faults
      (cnp_db (CacheNewPaths no_faults \<lparr>paths_id_seq = 7, paths = []\<rparr> [''x'' \<mapsto> 5]
        [''a'', ''x'', ''b'']))
      (cnp_cache (CacheNewPaths no_faults \<lparr>paths_id_seq = 7, paths = []\<rparr> [''x'' \<mapsto> 5]
        [''a'', ''x'', ''b'']))
      [''a'', ''x'', ''b'']) = []
   \<and> set (cnp_pathSet (CacheNewPaths no_faults \<lparr>paths_id_seq = 7, paths = []\<rparr>
        [''x'' \<mapsto> 5] [''a'', ''x'', ''b''])) = {''a'', ''b''}"
  using C4_second_call [OF refl _ _ _ refl, of no_faults "\<lparr>paths_id_seq = 7, paths = []\<rparr>"
      "[''x'' \<mapsto> 5]" "[''a'', ''x'', ''b'']" no_faults]
  by (simp add: cnp_example)

section \<open>Virtual metadata and the reload of a campaign\<close>

lemma setters:
  "datasize (set_datasize v md) = v" "creatime (set_datasize v md) = creatime md"
  "modtime (set_datasize v md) = modtime md"
  "datasize (set_creatime c md) = datasize md" "creatime (set_creatime c md) = c"
  "modtime (set_creatime c md) = modtime md"
  "datasize (set_modtime m md) = datasize md" "creatime (set_modtime m md) = creatime md"
  "modtime (set_modtime m md) = m"
  "datasize (set_datalink l md) = datasize md" "creatime (set_datalink l md) = creatime md"
  "modtime (set_datalink l md) = modtime md"
  by (simp_all add: set_datasize_def set_creatime_def set_modtime_def set_datalink_def)

lemma file_record_put_file:
  "file_record (put_file f md cam) g = (if g = f then Some md else file_record cam g)"
  by (auto simp: file_record_def put_file_def split: option.splits)

lemma put_file_frame:
  "stale (put_file f md cam) = stale cam" "path (put_file f md cam) = path cam"
  "config (put_file f md cam) = config cam"
  "campaignMetadata (put_file f md cam) = campaignMetadata cam"
  "fileMetadata (put_file f md cam) \<noteq> None"
  by (simp_all add: put_file_def)

lemma time_Sub_pos: "(time_Sub c m > 0) = (m < c)"
  by (auto simp: time_Sub_def Let_def)

text \<open>
  Claim C5, amended. For a file with a cached record, whose metadata file can be
  examined, whose data file is there or is reported missing, and whose link can be
  built, \<open>updateFileVirtualMetadata\<close> succeeds. With the data file there, the size is
  the data file's size, the creation time is the data file's modification time, and
  the modification time is the metadata file's, raised to the creation time when it
  is earlier. With the data file missing, the size is 0 and the creation time is
  set to the modification time of the metadata file.
\<close>

theorem C5_virtual_metadata:
  assumes "file_record cam filename = Some md"
    and "fs_stat fs (Join [path cam, filename @ FileMetadataSuffix]) = StatOK msz mt"
    and "fs_stat fs (Join [path cam, filename]) \<noteq> StatError"
    and "snd (LinkTo (config cam) (''raw/'' @ Base (path cam) @ ''/'' @ filename @ ''/data''))
          = None"
  shows "fst (updateFileVirtualMetadata fs filename cam) = Success
       \<and> (case file_record (snd (updateFileVirtualMetadata fs filename cam)) filename of
             None \<Rightarrow> False
           | Some md' \<Rightarrow>
               (case fs_stat fs (Join [path cam, filename]) of
                  StatOK sz ct \<Rightarrow>
                    datasize md' = sz \<and> creatime md' = Some ct \<and> modtime md' = Some (max ct mt)
                | _ \<Rightarrow> datasize md' = 0 \<and> creatime md' = Some mt \<and> modtime md' = Some mt))"
proof -
  obtain fm where fm: "fileMetadata cam = Some fm" "fm filename = Some (Some md)"
    using assms(1) by (auto simp: file_record_def split: option.splits)
  show ?thesis
  proof (cases "fs_stat fs (Join [path cam, filename])")
    case (StatOK sz ct)
    then show ?thesis
      using fm assms(2,4)
      by (simp add: updateFileVirtualMetadata_def Let_def time_Sub_pos max_def setters
          file_record_put_file)
  next
    case StatNotExist
    then show ?thesis
      using fm assms(2,4)
      by (simp add: updateFileVirtualMetadata_def Let_def setters file_record_put_file)
  next
    case StatError
    then show ?thesis using assms(3) by simp
  qed
qed



lemma example_paths:
  "Join [''/raw'', ''test''] = ''/raw/test''"
  "Join [''/raw/test'', ''a.dat''] = ''/raw/test/a.dat''"
  "Join [''/raw/test'', ''a.dat.pto_file_metadata.json'']
     = ''/raw/test/a.dat.pto_file_metadata.json''"
  "Join [''/raw/test'', ''b.dat.pto_file_metadata.json'']
     = ''/raw/test/b.dat.pto_file_metadata.json''"
  "Join [''/raw/test'', ''__pto_campaign_metadata.json'']
     = ''/raw/test/__pto_campaign_metadata.json''"
  "Base ''/raw/test'' = ''test''"
  by code_simp+

lemma example_campaign:
  "newCampaign example_config ''test''
    = \<lparr>config = example_config, path = ''/raw/test'', stale = True,
       campaignMetadata = None, fileMetadata = Some Map.empty\<rparr>"
  by (simp add: newCampaign_def example_config_def example_paths)

lemma example_link: "LinkTo example_config s = (''https://pto.example/'' @ s, None)"
  by (simp add: example_config_def)

text \<open>
  The example with its data file: the metadata file is older than the data file, so
  the modification time is raised from 100 to 200.
\<close>

theorem C5_virtual_metadata_witness:
  "map_option (\<lambda>md. (datasize md, creatime md, modtime md))
     (file_record (snd (updateFileVirtualMetadata (example_fs True []) ''a.dat''
        (put_file ''a.dat'' zero_RawMetadata (newCampaign example_config ''test'')))) ''a.dat'')
   = Some (10, Some 200, Some 200)"
proof -
  let ?cam = "put_file ''a.dat'' zero_RawMetadata (newCampaign example_config ''test'')"
  have r: "file_record ?cam ''a.dat'' = Some zero_RawMetadata"
    by (simp add: file_record_put_file)
  have m: "fs_stat (example_fs True []) (Join [path ?cam, ''a.dat'' @ FileMetadataSuffix])
      = StatOK 60 100"
    by (simp add: put_file_frame example_campaign example_paths FileMetadataSuffix_def
        example_fs_def example_stat_def)
  have d: "fs_stat (example_fs True []) (Join [path ?cam, ''a.dat'']) = StatOK 10 200"
    by (simp add: put_file_frame example_campaign example_paths example_fs_def
        example_stat_def)
  have l: "snd (LinkTo (config ?cam) (''raw/'' @ Base (path ?cam) @ ''/'' @ ''a.dat'' @ ''/data''))
      = None"
    by (simp add: put_file_frame example_campaign example_link example_paths)
  show ?thesis
    using C5_virtual_metadata [OF r m _ l] d by (auto split: option.splits)
qed

text \<open>
  Claim C5 as stated fails: without the data file the call succeeds and the record
  has a creation time, the modification time of the metadata file.
\<close>

theorem C5_counterexample:
  "fs_stat (example_fs False []) (Join [''/raw/test'', ''a.dat'']) = StatNotExist
   \<and> fst (updateFileVirtualMetadata (example_fs False []) ''a.dat''
        (put_file ''a.dat'' zero_RawMetadata (newCampaign example_config ''test''))) = Success
   \<and> map_option creatime
     (file_record (snd (updateFileVirtualMetadata (example_fs False []) ''a.dat''
        (put_file ''a.dat'' zero_RawMetadata (newCampaign example_config ''test'')))) ''a.dat'')
   = Some (Some 100)"
  by (simp add: updateFileVirtualMetadata_def example_campaign example_paths example_fs_def
      example_stat_def example_link
      FileMetadataSuffix_def put_file_def file_record_def Let_def setters)





lemma load_nil_map:
  "fileMetadata cam = None \<Longrightarrow>
     load_entries lib fs ns cam =
       (if \<exists>n\<in>set ns. HasSuffix n FileMetadataSuffix
        then (Panic ''assignment to entry in nil map'', cam) else (Success, cam))"
  by (induction ns) (auto simp: Let_def)















text \<open>
  Claim C10. After \<open>unloadMetadata\<close> the map of file records is nil, and a reload
  leaves it nil. When the directory listing holds at least one metadata file, the
  reload does not succeed: it returns the error of reading the campaign's metadata
  file, or else panics on the assignment into the nil map; the campaign stays stale.
\<close>

theorem C10_reload_after_unload:
  assumes "fs_readdir fs (path cam) = Some names"
    and "\<exists>n\<in>set names. HasSuffix n FileMetadataSuffix"
  shows "fst (reloadMetadata lib fs force (unloadMetadata cam))
          = (case RawMetadataFromFile lib fs (Join [path cam, CampaignMetadataFilename]) None of
               Inl e \<Rightarrow> Failure e
             | Inr md \<Rightarrow> Panic ''assignment to entry in nil map'')
       \<and> fileMetadata (snd (reloadMetadata lib fs force (unloadMetadata cam))) = None
       \<and> stale (snd (reloadMetadata lib fs force (unloadMetadata cam)))"
proof (cases "RawMetadataFromFile lib fs (Join [path cam, CampaignMetadataFilename]) None")
  case (Inl e)
  then show ?thesis by (simp add: reloadMetadata_def unloadMetadata_def)
next
  case (Inr md)
  have l: "load_entries lib fs names c = (Panic ''assignment to entry in nil map'', c)"
    if "fileMetadata c = None" for c
    using assms(2) that by (simp add: load_nil_map)
  show ?thesis
    using Inr assms(1) by (simp add: reloadMetadata_def unloadMetadata_def Let_def l)
qed






lemma example_suffix:
  "HasSuffix ''a.dat.pto_file_metadata.json'' FileMetadataSuffix"
  "take (length ''a.dat.pto_file_metadata.json'' - length FileMetadataSuffix)
     ''a.dat.pto_file_metadata.json'' = ''a.dat''"
  by code_simp+





text \<open>The example, unloaded and reloaded: the reload panics.\<close>

theorem C10_reload_after_unload_witness:
  "fst (reloadMetadata example_lib
      (example_fs True [''__pto_campaign_metadata.json'', ''a.dat'',
         ''a.dat.pto_file_metadata.json''])
      False (unloadMetadata (newCampaign example_config ''test'')))
    = Panic ''assignment to entry in nil map''"
proof -
  let ?cam = "newCampaign example_config ''test''"
  let ?ok = "example_fs True [''__pto_campaign_metadata.json'', ''a.dat'',
         ''a.dat.pto_file_metadata.json'']"
  have dir: "fs_readdir ?ok (path ?cam) = Some [''__pto_campaign_metadata.json'', ''a.dat'',
         ''a.dat.pto_file_metadata.json'']"
    by (simp add: example_fs_def example_campaign)
  have sc: "\<exists>n\<in>set [''__pto_campaign_metadata.json'', ''a.dat'',
         ''a.dat.pto_file_metadata.json'']. HasSuffix n FileMetadataSuffix"
    using example_suffix(1) by simp
  have "isl (RawMetadataFromFile example_lib ?ok (Join [path ?cam, CampaignMetadataFilename])
      None) = False"
    by code_simp
  then show ?thesis
    using C10_reload_after_unload [OF dir sc, of example_lib False]
    by (auto split: sum.splits)
qed

section \<open>Decoding observations\<close>

lemma Atoi_syntax_error: "\<not> integer_syntax s \<Longrightarrow> Atoi s = (0, True)"
  by (simp add: Atoi_def)

lemma Atoi_range_error:
  "integer_syntax s \<Longrightarrow> snd (Atoi s) \<Longrightarrow> fst (Atoi s) = 2 ^ 63 - 1 \<or> fst (Atoi s) = - (2 ^ 63)"
  by (auto simp: Atoi_def Let_def split: if_splits)

text \<open>
  Claim C9. Decoding an array of at least five elements whose second and
  third elements parse as times, and whose sixth element, when there is one,
  converts to an integer, succeeds whatever the first element is. The set id is the
  value that \<^verbatim>\<open>strconv.Atoi\<close> returned for the first element, its error dropped:
  0 when the text of the first element is not an integer, that is, not an
  optionally signed string of digits. (For such a string out of the 64-bit range
  \<^verbatim>\<open>strconv.Atoi\<close> returns the largest or the smallest 64-bit integer with its
  error.)
\<close>

theorem C9_setid_error_discarded:
  assumes "5 \<le> length jslice"
    and "time_Parse lib (AsString (jslice ! 1)) = Some t1"
    and "time_Parse lib (AsString (jslice ! 2)) = Some t2"
    and "6 \<le> length jslice \<longrightarrow> \<not> snd (Atoi (AsString (jslice ! 5)))"
  shows "fst (UnmarshalJSON_Observation lib (Some (JArray jslice)) obs0) = None
       \<and> SetID (snd (UnmarshalJSON_Observation lib (Some (JArray jslice)) obs0))
           = fst (Atoi (AsString (jslice ! 0)))
       \<and> (\<not> integer_syntax (AsString (jslice ! 0)) \<longrightarrow>
            SetID (snd (UnmarshalJSON_Observation lib (Some (JArray jslice)) obs0)) = 0)
       \<and> (integer_syntax (AsString (jslice ! 0)) \<and> snd (Atoi (AsString (jslice ! 0))) \<longrightarrow>
            SetID (snd (UnmarshalJSON_Observation lib (Some (JArray jslice)) obs0)) = 2 ^ 63 - 1
            \<or> SetID (snd (UnmarshalJSON_Observation lib (Some (JArray jslice)) obs0))
                = - (2 ^ 63))"
proof -
  have "fst (UnmarshalJSON_Observation lib (Some (JArray jslice)) obs0) = None"
    and s: "SetID (snd (UnmarshalJSON_Observation lib (Some (JArray jslice)) obs0))
      = fst (Atoi (AsString (jslice ! 0)))"
    using assms by (simp_all add: UnmarshalJSON_Observation_def Let_def)
  then show ?thesis
    unfolding s using Atoi_syntax_error [of "AsString (jslice ! 0)"]
      Atoi_range_error [of "AsString (jslice ! 0)"]
    by auto
qed

lemma example_atoi:
  "AsString JNull = ''<nil>''" "\<not> integer_syntax ''<nil>''"
  "Atoi (AsString (JNumber 1000000)) = (0, True)"
  by code_simp+

lemma example_times:
  "time_Parse example_lib (AsString (JString ''2009-02-20T13:00:34Z''))
     = Some 1235134834000000000"
  "time_Parse example_lib (AsString (JString ''2009-02-20T13:15:17Z''))
     = Some 1235135717000000000"
  by code_simp+

text \<open>The line of the package's test with null in the place of the set id.\<close>

theorem C9_setid_error_discarded_witness:
  "fst (UnmarshalJSON_Observation example_lib
      (Some (JArray [JNull, JString ''2009-02-20T13:00:34Z'', JString ''2009-02-20T13:15:17Z'',
         JString ''1.2.3.4 * 5.6.7.8'', JString ''pto.test.succeeded'']))
      zero_Observation) = None
   \<and> SetID (snd (UnmarshalJSON_Observation example_lib
      (Some (JArray [JNull, JString ''2009-02-20T13:00:34Z'', JString ''2009-02-20T13:15:17Z'',
         JString ''1.2.3.4 * 5.6.7.8'', JString ''pto.test.succeeded'']))
      zero_Observation)) = 0"
  using C9_setid_error_discarded [of
      "[JNull, JString ''2009-02-20T13:00:34Z'', JString ''2009-02-20T13:15:17Z'',
         JString ''1.2.3.4 * 5.6.7.8'', JString ''pto.test.succeeded'']"
      example_lib 1235134834000000000 1235135717000000000 zero_Observation]
    example_times example_atoi(1,2)
  by simp

text \<open>
  An integer out of range as the first element: with the string
  \<^verbatim>\<open>9223372036854775808\<close> there \<^verbatim>\<open>strconv.Atoi\<close> returns an error, decoding
  succeeds, and the set id is the largest 64-bit integer.
\<close>

lemma setid_out_of_range:
  "snd (Atoi (AsString (JString ''9223372036854775808'')))
   \<and> fst (UnmarshalJSON_Observation example_lib
      (Some (JArray [JString ''9223372036854775808'', JString ''2009-02-20T13:00:34Z'',
         JString ''2009-02-20T13:15:17Z'', JString ''1.2.3.4 * 5.6.7.8'',
         JString ''pto.test.succeeded'']))
      zero_Observation) = None
   \<and> SetID (snd (UnmarshalJSON_Observation example_lib
      (Some (JArray [JString ''9223372036854775808'', JString ''2009-02-20T13:00:34Z'',
         JString ''2009-02-20T13:15:17Z'', JString ''1.2.3.4 * 5.6.7.8'',
         JString ''pto.test.succeeded'']))
      zero_Observation)) = 9223372036854775807"
  by code_simp

lemma digit_char_code:
  assumes "0 \<le> d" "d < 10"
  shows "(of_char (digit_char d) :: int) = 48 + d"
proof -
  have "d \<in> {0, 1, 2, 3, 4, 5, 6, 7, 8, 9}"
    using assms by simp presburger
  then show ?thesis
    by (auto simp: digit_char_def)
qed

lemma is_digit_digit_char: "0 \<le> d \<Longrightarrow> d < 10 \<Longrightarrow> is_digit (digit_char d)"
  by (simp add: is_digit_def digit_char_code)

lemma digits_value_snoc:
  "digits_value (ds @ [c]) = 10 * digits_value ds + (of_char c - 48)"
  by (simp add: digits_value_def)

lemma digits_props:
  "0 \<le> n \<Longrightarrow> digits n \<noteq> [] \<and> list_all is_digit (digits n) \<and> digits_value (digits n) = n"
proof (induction n rule: digits.induct)
  case (1 n)
  show ?case
  proof (cases "n < 10")
    case True
    then have "digits n = [digit_char n]"
      by (subst digits.simps) simp
    then show ?thesis
      using "1.prems" True digit_char_code [of n] is_digit_digit_char [of n]
      by (simp add: digits_value_def)
  next
    case False
    then have ih: "digits (n div 10) \<noteq> [] \<and> list_all is_digit (digits (n div 10))
        \<and> digits_value (digits (n div 10)) = n div 10"
      using "1.IH" "1.prems" by simp
    have m: "0 \<le> n mod 10" "n mod 10 < 10" by simp_all
    have d: "digits n = digits (n div 10) @ [digit_char (n mod 10)]"
      using False by (subst digits.simps) simp
    show ?thesis
      unfolding d using ih digit_char_code [OF m] is_digit_digit_char [OF m]
      by (simp add: digits_value_snoc)
  qed
qed

lemma length_digits:
  "0 \<le> n \<Longrightarrow> n < 10 ^ k \<Longrightarrow> 0 < k \<Longrightarrow> length (digits n) \<le> k"
proof (induction k arbitrary: n)
  case 0
  then show ?case by simp
next
  case (Suc k)
  show ?case
  proof (cases "n < 10")
    case True
    then show ?thesis by (subst digits.simps) simp
  next
    case False
    then have k: "0 < k"
      using Suc.prems by (cases k) auto
    define K :: int where "K = 10 ^ k"
    have "n < 10 * K"
      using Suc.prems by (simp add: K_def)
    then have "n div 10 < K"
      by presburger
    then have "n div 10 < 10 ^ k"
      by (simp add: K_def)
    then have "length (digits (n div 10)) \<le> k"
      using Suc.IH [of "n div 10"] Suc.prems k by simp
    then show ?thesis
      using False by (subst digits.simps) simp
  qed
qed


lemma is_digit_not_sign: "is_digit c \<Longrightarrow> c \<noteq> CHR ''-'' \<and> c \<noteq> CHR ''+''"
  by (auto simp: is_digit_def)

lemma Atoi_digits:
  assumes "0 \<le> n" "n < 2 ^ 63"
  shows "Atoi (digits n) = (n, False)" "Atoi (CHR ''-'' # digits n) = (- n, False)"
proof -
  obtain c cs where ds: "digits n = c # cs"
    using digits_props [OF assms(1)] by (cases "digits n") auto
  have p: "list_all is_digit (c # cs)" "digits_value (c # cs) = n"
    using digits_props [OF assms(1)] unfolding ds by simp_all
  then have c: "c \<noteq> CHR ''-''" "c \<noteq> CHR ''+''"
    using is_digit_not_sign [of c] by simp_all
  show "Atoi (digits n) = (n, False)"
    unfolding ds using p c assms(2) by (simp add: Atoi_def integer_syntax_def Let_def)
  show "Atoi (CHR ''-'' # digits n) = (- n, False)"
    unfolding ds using p assms(2) by (simp add: Atoi_def integer_syntax_def Let_def)
qed

lemma Atoi_fmt_float:
  assumes "\<bar>n\<bar> < 10 ^ 6"
  shows "Atoi (AsString (JNumber n)) = (n, False)"
proof -
  have "length (digits \<bar>n\<bar>) \<le> 6"
    using assms by (intro length_digits) auto
  then have "length (digits \<bar>n\<bar>) - 1 < 6"
    by linarith
  then have f: "fmt_float n = (if n < 0 then ''-'' else []) @ digits \<bar>n\<bar>"
    by (simp add: fmt_float_def Let_def)
  have "\<bar>n\<bar> < 2 ^ 63"
    using assms by simp
  then show ?thesis
    using Atoi_digits [of "\<bar>n\<bar>"] f by (auto simp: AsString_def)
qed

text \<open>
  Below one million the round trip of an observation holds: when the time functions
  give back the two time stamps, an observation with a path and a condition, whose
  set id and value are smaller than \<open>10^6\<close> in absolute value, is decoded from its
  own encoding with the same set id, times, path string, condition name and value.
\<close>

lemma Observation_roundtrip:
  assumes "Obs_Path obs = Some p" "Obs_Condition obs = Some c"
    and "\<bar>SetID obs\<bar> < 10 ^ 6" "\<bar>Value obs\<bar> < 10 ^ 6"
    and "time_Parse lib (time_Format lib (Start obs)) = Some (Start obs)"
    and "time_Parse lib (time_Format lib (End obs)) = Some (End obs)"
  shows "UnmarshalJSON_Observation lib (MarshalJSON_Observation lib obs) zero_Observation
    = (None, zero_Observation\<lparr>SetID := SetID obs, Start := Start obs, End := End obs,
         Obs_Path := Some \<lparr>Path_ID = 0, Path_String = Path_String p\<rparr>,
         Obs_Condition := Some \<lparr>Condition_ID = 0, Condition_Name = Condition_Name c\<rparr>,
         Value := Value obs\<rparr>)"
proof (cases "Value obs = 0")
  case True
  then show ?thesis
    using assms Atoi_fmt_float [of "SetID obs"]
    by (simp add: UnmarshalJSON_Observation_def MarshalJSON_Observation_def Let_def
        AsString_def zero_Observation_def)
next
  case False
  have n: "Atoi (AsString (JNumber (SetID obs))) = (SetID obs, False)"
    "Atoi (AsString (JNumber (Value obs))) = (Value obs, False)"
    using assms(3,4) by (simp_all add: Atoi_fmt_float)
  have s: "AsString (JString x) = x" for x
    by (simp add: AsString_def)
  show ?thesis
    using assms(1,2,5,6) False n
    by (simp add: UnmarshalJSON_Observation_def MarshalJSON_Observation_def Let_def s
        zero_Observation_def)
qed

lemma map_store_new: "k \<notin> fst ` set m \<Longrightarrow> map_store k v m = m @ [(k, v)]"
  by (induction m) auto

lemma marshal_metadata:
  "distinct (map fst md) \<Longrightarrow> fst ` set md \<inter> fst ` set jmap = {} \<Longrightarrow>
     foldl (\<lambda>jmap kv. map_store (fst kv) (JString (snd kv)) jmap) jmap md
       = jmap @ map (\<lambda>kv. (fst kv, JString (snd kv))) md"
proof (induction md arbitrary: jmap)
  case Nil
  then show ?case by simp
next
  case (Cons kv md)
  have new: "fst kv \<notin> fst ` set jmap"
    using Cons.prems(2) by auto
  have "fst ` set md \<inter> fst ` set (jmap @ [(fst kv, JString (snd kv))]) = {}"
    using Cons.prems by (auto simp: image_iff)
  then show ?case
    using Cons.IH [of "jmap @ [(fst kv, JString (snd kv))]"] Cons.prems(1) new
    by (simp add: map_store_new)
qed

lemma unmarshal_metadata:
  "distinct (map fst md) \<Longrightarrow> list_all extension_key (map fst md) \<Longrightarrow>
   fst ` set md \<inter> fst ` set (Set_Metadata oset) = {} \<Longrightarrow>
     unmarshal_set_keys (map (\<lambda>kv. (fst kv, JString (snd kv))) md) oset
       = (None, oset\<lparr>Set_Metadata := Set_Metadata oset @ md\<rparr>)"
proof (induction md arbitrary: oset)
  case Nil
  then show ?case by simp
next
  case (Cons kv md)
  let ?o = "oset\<lparr>Set_Metadata := Set_Metadata oset @ [kv]\<rparr>"
  have new: "fst kv \<notin> fst ` set (Set_Metadata oset)"
    using Cons.prems(3) by auto
  have k: "extension_key (fst kv)"
    using Cons.prems(2) by simp
  have "fst ` set md \<inter> fst ` set (Set_Metadata ?o) = {}"
    using Cons.prems by (auto simp: image_iff)
  then have "unmarshal_set_keys (map (\<lambda>kv. (fst kv, JString (snd kv))) md) ?o
      = (None, ?o\<lparr>Set_Metadata := Set_Metadata ?o @ md\<rparr>)"
    using Cons.IH [of ?o] Cons.prems(1,2) by simp
  then show ?case
    using k new by (simp add: extension_key_def AsString_def map_store_new)
qed


lemma unmarshal_set_keys_append:
  "unmarshal_set_keys (xs @ ys) oset =
     (case unmarshal_set_keys xs oset of
        (None, oset') \<Rightarrow> unmarshal_set_keys ys oset'
      | (Some e, oset') \<Rightarrow> (Some e, oset'))"
  by (induction xs oset rule: unmarshal_set_keys.induct) (auto split: option.splits)

lemma extension_key_not_reserved:
  "extension_key k \<Longrightarrow> k \<notin> fst ` set (reserved_entries oset)"
  by (auto simp: extension_key_def reserved_entries_def HasPrefix_def)

lemma marshal_set:
  assumes "distinct (map fst (Set_Metadata oset))"
    and "list_all extension_key (map fst (Set_Metadata oset))"
  shows "MarshalJSON_ObservationSet oset
    = JObject (reserved_entries oset
        @ map (\<lambda>kv. (fst kv, JString (snd kv))) (Set_Metadata oset))"
proof -
  have "fst ` set (Set_Metadata oset) \<inter> fst ` set (reserved_entries oset) = {}"
    using assms(2) extension_key_not_reserved [of _ oset]
    by (auto simp: list_all_iff)
  then have "foldl (\<lambda>jmap kv. map_store (fst kv) (JString (snd kv)) jmap)
      (reserved_entries oset) (Set_Metadata oset)
    = reserved_entries oset @ map (\<lambda>kv. (fst kv, JString (snd kv))) (Set_Metadata oset)"
    using assms(1) by (rule marshal_metadata [rotated])
  moreover have "MarshalJSON_ObservationSet oset
    = JObject (foldl (\<lambda>jmap kv. map_store (fst kv) (JString (snd kv)) jmap)
        (reserved_entries oset) (Set_Metadata oset))"
    by (simp add: MarshalJSON_ObservationSet_def reserved_entries_def Let_def)
  ultimately show ?thesis by simp
qed

lemma unmarshal_reserved:
  assumes "Sources oset = Some ss"
  shows "unmarshal_set_keys (reserved_entries oset) oset1
    = (None, oset1\<lparr>Sources := Some ss, Analyzer := Analyzer oset\<rparr>)"
proof -
  have "map AsString (map JString ss) = ss"
    by (induction ss) (simp_all add: AsString_def)
  then show ?thesis
    using assms
    by (simp add: reserved_entries_def AsStringArray_def AsString_def HasPrefix_def)
qed

text \<open>
  The round trip of an observation set: with sources, a non-empty analyzer and
  metadata under distinct extension keys, decoding the encoding gives back the
  sources, the analyzer and the metadata; the id is 0 and the derived fields are
  those of the set decoded into.
\<close>

lemma ObservationSet_roundtrip:
  assumes "Sources oset = Some ss" "Analyzer oset \<noteq> []"
    and "distinct (map fst (Set_Metadata oset))"
    and "list_all extension_key (map fst (Set_Metadata oset))"
  shows "UnmarshalJSON_ObservationSet (Some (MarshalJSON_ObservationSet oset)) oset0
    = (None, oset0\<lparr>Set_ID := 0, Sources := Some ss, Analyzer := Analyzer oset,
         Set_Metadata := Set_Metadata oset\<rparr>)"
proof -
  let ?o1 = "oset0\<lparr>Set_Metadata := [], Set_ID := 0\<rparr>"
  let ?o2 = "?o1\<lparr>Sources := Some ss, Analyzer := Analyzer oset\<rparr>"
  have "unmarshal_set_keys (map (\<lambda>kv. (fst kv, JString (snd kv))) (Set_Metadata oset)) ?o2
      = (None, ?o2\<lparr>Set_Metadata := Set_Metadata ?o2 @ Set_Metadata oset\<rparr>)"
    using assms(3,4) by (intro unmarshal_metadata) simp_all
  then have "unmarshal_set_keys (reserved_entries oset
        @ map (\<lambda>kv. (fst kv, JString (snd kv))) (Set_Metadata oset)) ?o1
      = (None, ?o2\<lparr>Set_Metadata := Set_Metadata oset\<rparr>)"
    using unmarshal_reserved [OF assms(1), of ?o1]
    by (simp add: unmarshal_set_keys_append)
  then show ?thesis
    using assms(2) marshal_set [OF assms(3,4)]
    by (simp add: UnmarshalJSON_ObservationSet_def Let_def)
qed

text \<open>
  Claim C3 at a value of one million. The encoder writes the number 1000000; the
  decoder reads it as a \<^verbatim>\<open>float64\<close>, \<open>AsString\<close> prints it as \<^verbatim>\<open>1e+06\<close>, and
  \<^verbatim>\<open>strconv.Atoi\<close> rejects that text. So an observation with the value 1000000 is
  encoded to an array that the decoder refuses, and an observation with the set id
  1000000 is decoded with the set id 0, whatever the time functions do.
\<close>

theorem C3_decoding_fails_from_a_million:
  "fst (UnmarshalJSON_Observation lib
      (MarshalJSON_Observation lib
         (obs\<lparr>Obs_Path := Some p, Obs_Condition := Some c, Value := 1000000\<rparr>)) obs0) \<noteq> None
   \<and> SetID (snd (UnmarshalJSON_Observation lib
      (MarshalJSON_Observation lib
         (obs\<lparr>Obs_Path := Some p, Obs_Condition := Some c, SetID := 1000000\<rparr>)) obs0)) = 0"
  by (simp add: UnmarshalJSON_Observation_def MarshalJSON_Observation_def Let_def example_atoi(3)
      split: option.splits)

section \<open>The path check of the data files\<close>

lemma split_sep_not_Nil: "split_sep s \<noteq> []"
  by (induction s) (auto split: list.splits)

lemma split_sep_append:
  "split_sep (xs @ CHR ''/'' # ys) = split_sep xs @ split_sep ys"
  by (induction xs) (auto simp: split_sep_not_Nil split: list.splits)

lemma split_sep_plain: "CHR ''/'' \<notin> set f \<Longrightarrow> split_sep f = [f]"
  by (induction f) auto

lemma split_sep_noslash: "c \<in> set (split_sep s) \<Longrightarrow> CHR ''/'' \<notin> set c"
  by (induction s arbitrary: c) (auto split: list.splits if_splits)

lemma split_sep_single: "split_sep s = [[]] \<Longrightarrow> s = []"
  by (cases s) (auto simp: split_sep_not_Nil split: list.splits if_splits)

lemma join_sep_snoc: "xs \<noteq> [] \<Longrightarrow> join_sep (xs @ [f]) = join_sep xs @ CHR ''/'' # f"
  by (induction xs rule: join_sep.induct) auto

lemma split_join:
  "xs \<noteq> [] \<Longrightarrow> \<forall>c\<in>set xs. CHR ''/'' \<notin> set c \<Longrightarrow> split_sep (join_sep xs) = xs"
proof (induction xs rule: join_sep.induct)
  case 1
  then show ?case by simp
next
  case (2 x)
  then show ?case by (simp add: split_sep_plain)
next
  case (3 x y ys)
  then show ?case by (simp add: split_sep_append split_sep_plain)
qed

lemma kept_step:
  "kept st \<Longrightarrow> CHR ''/'' \<notin> set c \<Longrightarrow> kept (clean_step rooted st c)"
  by (cases st) (auto simp: kept_def clean_step_def)

lemma kept_foldl:
  "kept st \<Longrightarrow> \<forall>c\<in>set cs. CHR ''/'' \<notin> set c \<Longrightarrow> kept (foldl (clean_step rooted) st cs)"
  by (induction cs arbitrary: st) (auto simp: kept_step)

lemma kept_clean: "kept (foldl (clean_step rooted) [] (split_sep p))"
  by (rule kept_foldl) (auto simp: kept_def split_sep_noslash)


lemma Clean_Nil: "Clean [] = ''.''"
  by (simp add: Clean_def clean_step_def)

lemma plain_name_step: "plain_name f \<Longrightarrow> clean_step rooted st f = f # st"
  by (auto simp: plain_name_def clean_step_def)

lemma Clean_plain_snoc:
  assumes "Clean P = P" "P \<noteq> ''/''" "P \<noteq> ''.''" "plain_name f"
  shows "Clean (P @ CHR ''/'' # f) = P @ CHR ''/'' # f"
proof -
  define rooted where "rooted = (hd P = CHR ''/'')"
  define st where "st = foldl (clean_step rooted) [] (split_sep P)"
  define pre where "pre = (if rooted then ''/'' else [])"
  have P: "P \<noteq> []"
    using assms(1,3) Clean_Nil by auto
  have c: "Clean P = (if pre @ join_sep (rev st) = [] then ''.'' else pre @ join_sep (rev st))"
    using P by (simp add: Clean_def Let_def rooted_def st_def pre_def)
  then have out: "P = pre @ join_sep (rev st)"
    using assms(1,3) by (auto split: if_splits)
  have st: "st \<noteq> []"
    using out P assms(2) by (auto simp: pre_def split: if_splits)
  have f: "CHR ''/'' \<notin> set f"
    using assms(4) by (simp add: plain_name_def)
  have "foldl (clean_step rooted) [] (split_sep (P @ CHR ''/'' # f)) = f # st"
    using f assms(4) by (simp add: split_sep_append split_sep_plain st_def plain_name_step)
  moreover have "(P @ CHR ''/'' # f \<noteq> [] \<and> hd (P @ CHR ''/'' # f) = CHR ''/'') = rooted"
    using P by (simp add: rooted_def)
  ultimately have "Clean (P @ CHR ''/'' # f) = pre @ join_sep (rev (f # st))"
    using st by (simp add: Clean_def Let_def pre_def join_sep_snoc)
  then show ?thesis
    using st out by (simp add: join_sep_snoc)
qed

lemma Match_star: "Match ''*'' s = (CHR ''/'' \<notin> set s)"
  by (induction s) auto

lemma Match_literal:
  "pattern_free P \<Longrightarrow>
     Match (P @ ''/*'') r = (\<exists>x. r = P @ CHR ''/'' # x \<and> CHR ''/'' \<notin> set x)"
proof (induction P arbitrary: r)
  case Nil
  then show ?case by (cases r) (auto simp: Match_star)
next
  case (Cons c P)
  then have "pattern_free P" and lit: "c \<noteq> CHR ''*''" "c \<noteq> CHR ''?''" "c \<noteq> CHR ''[''"
      "c \<noteq> CHR 0x5C"
    by (simp_all add: pattern_free_def)
  then show ?case using Cons.IH by (cases r) auto
qed

lemma Clean_inside:
  assumes "Clean q = P @ CHR ''/'' # x" "CHR ''/'' \<notin> set x" "P \<noteq> []"
    and "last (split_sep P) \<noteq> ''..''"
  shows "plain_name x"
proof -
  define rooted where "rooted = (q \<noteq> [] \<and> hd q = CHR ''/'')"
  define st where "st = foldl (clean_step rooted) [] (split_sep q)"
  define pre where "pre = (if rooted then ''/'' else [])"
  have k: "kept st"
    unfolding st_def by (rule kept_clean)
  have "Clean q = (if pre @ join_sep (rev st) = [] then ''.'' else pre @ join_sep (rev st))"
    by (simp add: Clean_def Let_def rooted_def st_def pre_def)
  then have out: "P @ CHR ''/'' # x = pre @ join_sep (rev st)"
    using assms(1,3) by (cases P) (auto split: if_splits)
  have st: "st \<noteq> []"
    using out assms(3) by (cases P) (auto simp: pre_def split: if_splits)
  have ns: "\<forall>c\<in>set (rev st). CHR ''/'' \<notin> set c"
    using k by (simp add: kept_def)
  have sj: "split_sep (join_sep (rev st)) = rev st"
    using st ns by (intro split_join) auto
  have "split_sep (P @ CHR ''/'' # x) = split_sep P @ [x]"
    using assms(2) by (simp add: split_sep_append split_sep_plain)
  then have sp: "split_sep P @ [x] = (if rooted then [[]] else []) @ rev st"
    unfolding out using sj
    by (auto simp: pre_def split_sep_append [of "[]", simplified])
  obtain t ts where tts: "st = t # ts"
    using st by (cases st) auto
  have x: "x = t" and rest: "split_sep P = (if rooted then [[]] else []) @ rev ts"
    using sp unfolding tts by (auto split: if_splits)
  have "x \<noteq> []" "x \<noteq> ''.''"
    using k unfolding tts x by (auto simp: kept_def)
  moreover have "x \<noteq> ''..''"
  proof
    assume d: "x = ''..''"
    then have all: "\<forall>d\<in>set ts. d = ''..''"
      using k unfolding tts x by (simp add: kept_def)
    show False
    proof (cases ts)
      case Nil
      then have "split_sep P = [[]] \<or> split_sep P = []"
        using rest by auto
      then show False using assms(3) split_sep_single split_sep_not_Nil by auto
    next
      case (Cons u us)
      then have "last (split_sep P) = u"
        using rest by simp
      then show False using all Cons assms(4) by simp
    qed
  qed
  ultimately show ?thesis
    using assms(2) by (simp add: plain_name_def)
qed

lemma path_check:
  assumes "campaign_dir P"
  shows "Match (Join [P, ''*'']) (Clean q) = directly_inside P (Clean q)"
proof -
  have c: "Clean P = P" "P \<noteq> ''/''" "P \<noteq> ''.''" "last (split_sep P) \<noteq> ''..''" "pattern_free P"
    using assms by (simp_all add: campaign_dir_def)
  have P: "P \<noteq> []"
    using c(1,3) Clean_Nil by auto
  have "Join [P, ''*''] = Clean (P @ CHR ''/'' # ''*'')"
    using P by (simp add: Join_def)
  also have "\<dots> = P @ ''/*''"
    using Clean_plain_snoc [OF c(1-3), of "''*''"] by (simp add: plain_name_def)
  finally have "Match (Join [P, ''*'']) (Clean q)
      = (\<exists>x. Clean q = P @ CHR ''/'' # x \<and> CHR ''/'' \<notin> set x)"
    using c(5) by (simp add: Match_literal)
  also have "\<dots> = directly_inside P (Clean q)"
  proof
    assume "\<exists>x. Clean q = P @ CHR ''/'' # x \<and> CHR ''/'' \<notin> set x"
    then obtain x where x: "Clean q = P @ CHR ''/'' # x" "CHR ''/'' \<notin> set x"
      by blast
    then have "plain_name x"
      using P c(4) by (rule Clean_inside)
    then show "directly_inside P (Clean q)"
      using x(1) by (simp add: directly_inside_def)
  next
    assume "directly_inside P (Clean q)"
    then have "take (length P + 1) (Clean q) = P @ ''/''"
      "plain_name (drop (length P + 1) (Clean q))"
      by (simp_all add: directly_inside_def)
    then have "Clean q = P @ CHR ''/'' # drop (length P + 1) (Clean q)
        \<and> CHR ''/'' \<notin> set (drop (length P + 1) (Clean q))"
      using append_take_drop_id [of "length P + 1" "Clean q"]
      by (simp add: plain_name_def)
    then show "\<exists>x. Clean q = P @ CHR ''/'' # x \<and> CHR ''/'' \<notin> set x"
      by blast
  qed
  finally show ?thesis .
qed


lemma Clean_Join_plain:
  assumes "campaign_dir P" "plain_name f"
  shows "Clean (Join [P, f]) = P @ CHR ''/'' # f"
proof -
  have c: "Clean P = P" "P \<noteq> ''/''" "P \<noteq> ''.''"
    using assms(1) by (simp_all add: campaign_dir_def)
  have P: "P \<noteq> []"
    using c(1,3) Clean_Nil by auto
  have "Join [P, f] = Clean (P @ CHR ''/'' # f)"
    using P by (simp add: Join_def)
  then show ?thesis
    using Clean_plain_snoc [OF c assms(2)] by simp
qed

lemma clean_step_back: "plain_name d \<Longrightarrow> clean_step rooted (d # st) ''..'' = st"
  by (auto simp: plain_name_def clean_step_def)

lemma Clean_back_snoc:
  assumes "Clean P = P" "P \<noteq> ''/''" "P \<noteq> ''.''" "plain_name d" "plain_name f"
  shows "Clean (P @ CHR ''/'' # d @ ''/../'' @ f) = P @ CHR ''/'' # f"
proof -
  define rooted where "rooted = (hd P = CHR ''/'')"
  define st where "st = foldl (clean_step rooted) [] (split_sep P)"
  define pre where "pre = (if rooted then ''/'' else [])"
  have P: "P \<noteq> []"
    using assms(1,3) Clean_Nil by auto
  have c: "Clean P = (if pre @ join_sep (rev st) = [] then ''.'' else pre @ join_sep (rev st))"
    using P by (simp add: Clean_def Let_def rooted_def st_def pre_def)
  then have out: "P = pre @ join_sep (rev st)"
    using assms(1,3) by (auto split: if_splits)
  have st: "st \<noteq> []"
    using out P assms(2) by (auto simp: pre_def split: if_splits)
  have d: "CHR ''/'' \<notin> set d" and f: "CHR ''/'' \<notin> set f"
    using assms(4,5) by (simp_all add: plain_name_def)
  have "split_sep (P @ CHR ''/'' # d @ ''/../'' @ f) = split_sep P @ [d, ''..'', f]"
    using d f split_sep_append [of P "d @ ''/../'' @ f"] split_sep_append [of d "''../'' @ f"]
      split_sep_append [of "''..''" f]
    by (simp add: split_sep_plain)
  then have "foldl (clean_step rooted) [] (split_sep (P @ CHR ''/'' # d @ ''/../'' @ f)) = f # st"
    using assms(4,5) by (simp add: st_def plain_name_step clean_step_back)
  moreover have "(P @ CHR ''/'' # d @ ''/../'' @ f \<noteq> []
      \<and> hd (P @ CHR ''/'' # d @ ''/../'' @ f) = CHR ''/'') = rooted"
    using P by (simp add: rooted_def)
  ultimately have "Clean (P @ CHR ''/'' # d @ ''/../'' @ f) = pre @ join_sep (rev (f # st))"
    using st by (simp add: Clean_def Let_def pre_def join_sep_snoc)
  then show ?thesis
    using st out by (simp add: join_sep_snoc)
qed

lemma Clean_Join_back:
  assumes "campaign_dir P" "plain_name d" "plain_name f"
  shows "Clean (Join [P, d @ ''/../'' @ f]) = P @ CHR ''/'' # f"
proof -
  have c: "Clean P = P" "P \<noteq> ''/''" "P \<noteq> ''.''"
    using assms(1) by (simp_all add: campaign_dir_def)
  have P: "P \<noteq> []"
    using c(1,3) Clean_Nil by auto
  have "Join [P, d @ ''/../'' @ f] = Clean (P @ CHR ''/'' # d @ ''/../'' @ f)"
    using P by (simp add: Join_def)
  then show ?thesis
    using Clean_back_snoc [OF c assms(2,3)] Clean_plain_snoc [OF c assms(3)] by simp
qed

text \<open>
  Claim C6, amended. The campaign directory is a cleaned path, other than the root
  and the current directory, whose last element is not \<^verbatim>\<open>..\<close>, and without
  pattern characters. Then every path that \<open>ReadFileData\<close> or \<open>WriteFileData\<close> hands
  to the file system lies directly inside the campaign directory. When the cleaned
  join of the directory and the file name does not lie directly inside it, both fail
  with the internal error (status 500) and touch no file. When it does, the check
  passes, whatever the name looks like: \<open>ReadFileData\<close> opens the cleaned path, and
  \<open>WriteFileData\<close> creates it, after looking for it unless forced. For a plain file
  name the cleaned path is the file of that name in the directory; and a name
  \<^verbatim>\<open>d/../f\<close>, with a directory element and a \<^verbatim>\<open>..\<close> element, is accepted as the
  file \<^verbatim>\<open>f\<close> of the directory. The check looks at the cleaned path, not at the
  name.
\<close>

theorem C6_path_check:
  assumes "campaign_dir (path cam)"
  shows "(\<forall>p\<in>set (touched (ReadFileData fs cam filename)). directly_inside (path cam) p)
       \<and> (\<forall>p\<in>set (touched (WriteFileData fs cam filename force)). directly_inside (path cam) p)
       \<and> (\<not> directly_inside (path cam) (Clean (Join [path cam, filename])) \<longrightarrow>
            ReadFileData fs cam filename
              = \<lparr>result = Inl (PTOErrorStatus
                   (''path '' @ Clean (Join [path cam, filename]) @ '' is not ok'') 500),
                 touched = []\<rparr>
            \<and> WriteFileData fs cam filename force
              = \<lparr>result = Inl (PTOErrorStatus
                   (''path '' @ Clean (Join [path cam, filename]) @ '' is not ok'') 500),
                 touched = []\<rparr>)
       \<and> (directly_inside (path cam) (Clean (Join [path cam, filename])) \<longrightarrow>
            ReadFileData fs cam filename
              = \<lparr>result = (case fs_read fs (Clean (Join [path cam, filename])) of
                             OpenError \<Rightarrow> Inl (GoError ''os.Open'')
                           | _ \<Rightarrow> Inr (Clean (Join [path cam, filename]))),
                 touched = [Clean (Join [path cam, filename])]\<rparr>
            \<and> WriteFileData fs cam filename force
              = (if \<not> force \<and> fs_stat fs (Clean (Join [path cam, filename])) \<noteq> StatNotExist
                 then \<lparr>result = Inl (PTOExistsError ''file'' filename),
                       touched = [Clean (Join [path cam, filename])]\<rparr>
                 else \<lparr>result = (if fs_create fs (Clean (Join [path cam, filename]))
                                  then Inr (Clean (Join [path cam, filename]))
                                  else Inl (GoError ''os.Create'')),
                       touched = (if force then [Clean (Join [path cam, filename])]
                                  else [Clean (Join [path cam, filename]),
                                        Clean (Join [path cam, filename])])\<rparr>))
       \<and> (plain_name filename \<longrightarrow>
            touched (ReadFileData fs cam filename) = [path cam @ CHR ''/'' # filename]
            \<and> hd (touched (WriteFileData fs cam filename force)) = path cam @ CHR ''/'' # filename)
       \<and> (\<forall>d f. plain_name d \<and> plain_name f \<longrightarrow>
            touched (ReadFileData fs cam (d @ ''/../'' @ f)) = [path cam @ CHR ''/'' # f]
            \<and> hd (touched (WriteFileData fs cam (d @ ''/../'' @ f) force))
                = path cam @ CHR ''/'' # f)"
proof -
  have ok: "Match (Join [path cam, ''*'']) (Clean (Join [path cam, n]))
      = directly_inside (path cam) (Clean (Join [path cam, n]))" for n
    using assms by (rule path_check)
  have inside: "directly_inside (path cam) (path cam @ CHR ''/'' # f)" if "plain_name f" for f
    using that by (simp add: directly_inside_def)
  have r: "ReadFileData fs cam n
      = (if directly_inside (path cam) (Clean (Join [path cam, n]))
         then \<lparr>result = (case fs_read fs (Clean (Join [path cam, n])) of
                           OpenError \<Rightarrow> Inl (GoError ''os.Open'')
                         | _ \<Rightarrow> Inr (Clean (Join [path cam, n]))),
               touched = [Clean (Join [path cam, n])]\<rparr>
         else \<lparr>result = Inl (PTOErrorStatus
                  (''path '' @ Clean (Join [path cam, n]) @ '' is not ok'') 500),
               touched = []\<rparr>)" for n
    by (simp add: ReadFileData_def Let_def ok)
  have w: "WriteFileData fs cam n force
      = (if directly_inside (path cam) (Clean (Join [path cam, n]))
         then (if \<not> force \<and> fs_stat fs (Clean (Join [path cam, n])) \<noteq> StatNotExist
               then \<lparr>result = Inl (PTOExistsError ''file'' n),
                     touched = [Clean (Join [path cam, n])]\<rparr>
               else \<lparr>result = (if fs_create fs (Clean (Join [path cam, n]))
                                then Inr (Clean (Join [path cam, n]))
                                else Inl (GoError ''os.Create'')),
                     touched = (if force then [Clean (Join [path cam, n])]
                                else [Clean (Join [path cam, n]), Clean (Join [path cam, n])])\<rparr>)
         else \<lparr>result = Inl (PTOErrorStatus
                  (''path '' @ Clean (Join [path cam, n]) @ '' is not ok'') 500),
               touched = []\<rparr>)" for n
    by (simp add: WriteFileData_def Let_def ok)
  have c1: "\<forall>p\<in>set (touched (ReadFileData fs cam filename)). directly_inside (path cam) p"
    by (simp add: r)
  have c2: "\<forall>p\<in>set (touched (WriteFileData fs cam filename force)). directly_inside (path cam) p"
    by (simp add: w)
  have c3: "\<not> directly_inside (path cam) (Clean (Join [path cam, filename])) \<longrightarrow>
      ReadFileData fs cam filename
        = \<lparr>result = Inl (PTOErrorStatus
             (''path '' @ Clean (Join [path cam, filename]) @ '' is not ok'') 500),
           touched = []\<rparr>
      \<and> WriteFileData fs cam filename force
        = \<lparr>result = Inl (PTOErrorStatus
             (''path '' @ Clean (Join [path cam, filename]) @ '' is not ok'') 500),
           touched = []\<rparr>"
    by (simp add: r w)
  have c4: "directly_inside (path cam) (Clean (Join [path cam, filename])) \<longrightarrow>
      ReadFileData fs cam filename
        = \<lparr>result = (case fs_read fs (Clean (Join [path cam, filename])) of
                       OpenError \<Rightarrow> Inl (GoError ''os.Open'')
                     | _ \<Rightarrow> Inr (Clean (Join [path cam, filename]))),
           touched = [Clean (Join [path cam, filename])]\<rparr>
      \<and> WriteFileData fs cam filename force
        = (if \<not> force \<and> fs_stat fs (Clean (Join [path cam, filename])) \<noteq> StatNotExist
           then \<lparr>result = Inl (PTOExistsError ''file'' filename),
                 touched = [Clean (Join [path cam, filename])]\<rparr>
           else \<lparr>result = (if fs_create fs (Clean (Join [path cam, filename]))
                            then Inr (Clean (Join [path cam, filename]))
                            else Inl (GoError ''os.Create'')),
                 touched = (if force then [Clean (Join [path cam, filename])]
                            else [Clean (Join [path cam, filename]),
                                  Clean (Join [path cam, filename])])\<rparr>)"
    by (simp add: r w)
  have c5: "plain_name filename \<longrightarrow>
      touched (ReadFileData fs cam filename) = [path cam @ CHR ''/'' # filename]
      \<and> hd (touched (WriteFileData fs cam filename force)) = path cam @ CHR ''/'' # filename"
  proof
    assume p: "plain_name filename"
    note e = Clean_Join_plain [OF assms p] and i = inside [OF p]
    show "touched (ReadFileData fs cam filename) = [path cam @ CHR ''/'' # filename]
      \<and> hd (touched (WriteFileData fs cam filename force)) = path cam @ CHR ''/'' # filename"
      unfolding r w e using i by simp
  qed
  have c6: "\<forall>d f. plain_name d \<and> plain_name f \<longrightarrow>
      touched (ReadFileData fs cam (d @ ''/../'' @ f)) = [path cam @ CHR ''/'' # f]
      \<and> hd (touched (WriteFileData fs cam (d @ ''/../'' @ f) force)) = path cam @ CHR ''/'' # f"
  proof (intro allI impI)
    fix d f
    assume "plain_name d \<and> plain_name f"
    then have d: "plain_name d" and f: "plain_name f"
      by simp_all
    note e = Clean_Join_back [OF assms d f] and i = inside [OF f]
    show "touched (ReadFileData fs cam (d @ ''/../'' @ f)) = [path cam @ CHR ''/'' # f]
      \<and> hd (touched (WriteFileData fs cam (d @ ''/../'' @ f) force)) = path cam @ CHR ''/'' # f"
      unfolding r w e using i by simp
  qed
  show ?thesis
    using c1 c2 c3 c4 c5 c6 by blast
qed

lemma example_dir: "campaign_dir ''/raw/test''"
  by code_simp

lemma example_names:
  "Clean (Join [''/raw/test'', ''../secret'']) = ''/raw/secret''"
  "\<not> directly_inside ''/raw/test'' ''/raw/secret''"
  "plain_name ''a.dat''"
  "plain_name ''x''"
  by code_simp+

text \<open>
  In the example the name \<^verbatim>\<open>../secret\<close> is refused by both calls before any file
  is touched, \<^verbatim>\<open>a.dat\<close> is opened inside the campaign directory, and so it is
  under the name \<^verbatim>\<open>x/../a.dat\<close>.
\<close>

theorem C6_path_check_witness:
  "ReadFileData (example_fs True []) (newCampaign example_config ''test'') ''../secret''
     = \<lparr>result = Inl (PTOErrorStatus ''path /raw/secret is not ok'' 500), touched = []\<rparr>
   \<and> WriteFileData (example_fs True []) (newCampaign example_config ''test'') ''../secret'' True
     = \<lparr>result = Inl (PTOErrorStatus ''path /raw/secret is not ok'' 500), touched = []\<rparr>
   \<and> touched (ReadFileData (example_fs True []) (newCampaign example_config ''test'') ''a.dat'')
     = [''/raw/test/a.dat'']
   \<and> touched (ReadFileData (example_fs True []) (newCampaign example_config ''test'')
        ''x/../a.dat'')
     = [''/raw/test/a.dat'']"
proof -
  let ?cam = "newCampaign example_config ''test''"
  let ?fs = "example_fs True []"
  have p: "path ?cam = ''/raw/test''"
    by (simp add: example_campaign)
  have d: "campaign_dir (path ?cam)"
    unfolding p by (rule example_dir)
  have r: "Clean (Join [path ?cam, ''../secret'']) = ''/raw/secret''"
    unfolding p by (rule example_names(1))
  have n: "\<not> directly_inside (path ?cam) (Clean (Join [path ?cam, ''../secret'']))"
    unfolding r unfolding p by (rule example_names(2))
  note secret = C6_path_check [OF d, of ?fs "''../secret''" True]
  note adat = C6_path_check [OF d, of ?fs "''a.dat''" True]
  have "ReadFileData ?fs ?cam ''../secret''
      = \<lparr>result = Inl (PTOErrorStatus
           (''path '' @ Clean (Join [path ?cam, ''../secret'']) @ '' is not ok'') 500),
         touched = []\<rparr>
    \<and> WriteFileData ?fs ?cam ''../secret'' True
      = \<lparr>result = Inl (PTOErrorStatus
           (''path '' @ Clean (Join [path ?cam, ''../secret'']) @ '' is not ok'') 500),
         touched = []\<rparr>"
    using secret n by blast
  moreover have "touched (ReadFileData ?fs ?cam ''a.dat'') = [path ?cam @ CHR ''/'' # ''a.dat'']"
    using adat example_names(3) by blast
  moreover have "touched (ReadFileData ?fs ?cam (''x'' @ ''/../'' @ ''a.dat''))
      = [path ?cam @ CHR ''/'' # ''a.dat'']"
    using adat example_names(3,4) by blast
  ultimately show ?thesis
    unfolding r unfolding p by simp
qed

text \<open>
  Claim C6 as stated fails: a name with a directory element and a \<^verbatim>\<open>..\<close> element
  that cleans to a path directly inside the campaign directory is accepted; the
  file of that cleaned path is opened, or created.
\<close>

theorem C6_counterexample:
  "result (ReadFileData (example_fs True []) (newCampaign example_config ''test'')
      ''x/../a.dat'') = Inr ''/raw/test/a.dat''
   \<and> result (WriteFileData (example_fs True []) (newCampaign example_config ''test'')
      ''x/../new.dat'' False) = Inr ''/raw/test/new.dat''"
  by code_simp

text \<open>
  The campaign path is handed to \<^verbatim>\<open>filepath.Match\<close> as it is. With a pattern
  character in it the check can pass for a path outside the campaign directory: in
  the campaign \<^verbatim>\<open>c*\<close> the name \<^verbatim>\<open>../cx/f\<close> is accepted and the file is created
  in the directory \<^verbatim>\<open>cx\<close>.
\<close>

lemma path_check_with_pattern_character:
  "Join [RawRoot example_config, ''c*''] = ''/raw/c*''
   \<and> WriteFileData (example_fs True []) (newCampaign example_config ''c*'') ''../cx/f'' True
     = \<lparr>result = Inr ''/raw/cx/f'', touched = [''/raw/cx/f'']\<rparr>"
  by code_simp

end
